theory Spec2Isabelle
  imports Main "HOL-Library.Word" "HOL-Library.Multiset" "HOL-Library.Monad_Syntax"
begin

unbundle bit_operations_syntax

section \<open>The operating system as seen by the cgroup prober\<close>

text \<open>
  \<^verbatim>\<open>collector/kernel/cgroup_prober.cc\<close> talks to the outside through \<^verbatim>\<open>opendir\<close>,
  \<^verbatim>\<open>readdir\<close>, \<^verbatim>\<open>closedir\<close>, \<^verbatim>\<open>stat\<close>, \<^verbatim>\<open>std::ifstream\<close>, the probe handler and the two
  callbacks. The answers of the operating system are the fields of \<open>os_env\<close>; they do not
  change while the prober runs. The calls the prober makes are recorded, in order, as a
  list of \<open>event\<close>s. The debug log lines are diagnostics only and are left out.
\<close>

datatype file_type =
  DT_UNKNOWN | DT_FIFO | DT_CHR | DT_DIR | DT_BLK | DT_REG | DT_LNK | DT_SOCK | DT_WHT

record dirent =
  d_name :: string
  d_type :: file_type

type_synonym mode_t = "32 word"

record os_env =
  opendir_result :: "string \<Rightarrow> dirent list option"
    \<comment> \<open>\<^verbatim>\<open>opendir(path)\<close>: \<open>None\<close> for \<^verbatim>\<open>NULL\<close>, else the entries \<^verbatim>\<open>readdir\<close> yields, in order\<close>
  ifstream_fail :: "string \<Rightarrow> bool"
    \<comment> \<open>\<^verbatim>\<open>std::ifstream file(path); file.fail()\<close>\<close>
  closedir_status :: "string \<Rightarrow> int"
    \<comment> \<open>what \<^verbatim>\<open>closedir\<close> returns for the handle opened on that path\<close>
  stat_mode :: "string \<Rightarrow> mode_t option"
    \<comment> \<open>\<^verbatim>\<open>stat(path, &sb)\<close>: \<open>None\<close> for \<^verbatim>\<open>-1\<close>, else \<^verbatim>\<open>sb.st_mode\<close>\<close>

datatype event =
    PeriodicCb
  | CheckCb string
  | Opendir string bool
  | IfstreamOpen string bool
  | Getline string
  | Emplace string string
  | Closedir string int
  | StartProbeAlternatives string "(string \<times> string) list"
  | StartProbe string string
  | StartKretprobe string string
  | CleanupProbe string
  | CleanupKretprobe string

text \<open>
  \<open>Opendir p ok\<close> and \<open>IfstreamOpen p ok\<close> carry whether the open succeeded;
  \<open>Emplace dir_name d_name\<close> is \<^verbatim>\<open>dirs_stack.emplace(dir_name + "/" + ent->d_name)\<close>;
  \<open>Closedir p status\<close> carries the return value of \<^verbatim>\<open>closedir\<close>.
\<close>

section \<open>Mountpoint location\<close>

text \<open>\<^verbatim>\<open>S_ISREG(m)\<close> of \<^verbatim>\<open>sys/stat.h\<close>: \<^verbatim>\<open>((m) & S_IFMT) == S_IFREG\<close>.\<close>

definition S_IFMT :: mode_t where
  "S_IFMT = 0xF000"

definition S_IFREG :: mode_t where
  "S_IFREG = 0x8000"

definition S_ISREG :: "mode_t \<Rightarrow> bool" where
  "S_ISREG m = (m AND S_IFMT = S_IFREG)"

definition file_exists :: "os_env \<Rightarrow> string \<Rightarrow> bool" where
  "file_exists env file_path =
     (case stat_mode env file_path of
        None \<Rightarrow> False
      | Some st_mode \<Rightarrow> S_ISREG st_mode)"

definition is_cgroup_v1_mountpoint :: "os_env \<Rightarrow> string \<Rightarrow> bool" where
  "is_cgroup_v1_mountpoint env dir_path = file_exists env (dir_path @ ''/cgroup.clone_children'')"

definition is_cgroup_v2_mountpoint :: "os_env \<Rightarrow> string \<Rightarrow> bool" where
  "is_cgroup_v2_mountpoint env dir_path = file_exists env (dir_path @ ''/cgroup.controllers'')"

definition cgroup_v1_mountpoints :: "string list" where
  "cgroup_v1_mountpoints =
     [''/hostfs/sys/fs/cgroup/memory'', ''/hostfs/cgroup/memory'',
      ''/sys/fs/cgroup/memory'', ''/cgroup/memory'']"

definition cgroup_v2_mountpoints :: "string list" where
  "cgroup_v2_mountpoints = [''/hostfs/sys/fs/cgroup'', ''/sys/fs/cgroup'']"

text \<open>The two \<^verbatim>\<open>for\<close> loops, returning from inside at the first hit.\<close>

fun find_v1_loop :: "os_env \<Rightarrow> string list \<Rightarrow> string" where
  "find_v1_loop env [] = []"
| "find_v1_loop env (mountpoint # rest) =
     (if is_cgroup_v1_mountpoint env mountpoint then mountpoint else find_v1_loop env rest)"

fun find_v2_loop :: "os_env \<Rightarrow> string list \<Rightarrow> string" where
  "find_v2_loop env [] = []"
| "find_v2_loop env (mountpoint # rest) =
     (if is_cgroup_v2_mountpoint env mountpoint then mountpoint else find_v2_loop env rest)"

definition find_cgroup_v1_mountpoint :: "os_env \<Rightarrow> string" where
  "find_cgroup_v1_mountpoint env = find_v1_loop env cgroup_v1_mountpoints"

definition find_cgroup_v2_mountpoint :: "os_env \<Rightarrow> string" where
  "find_cgroup_v2_mountpoint env = find_v2_loop env cgroup_v2_mountpoints"

text \<open>
  The specification's wording of "the marker exists below the candidate and is a regular
  file", to compare the loops with.
\<close>

definition marker_is_regular_file :: "os_env \<Rightarrow> string \<Rightarrow> string \<Rightarrow> bool" where
  "marker_is_regular_file env marker_file candidate =
     (case stat_mode env (candidate @ ''/'' @ marker_file) of
        None \<Rightarrow> False
      | Some m \<Rightarrow> m AND 0xF000 = 0x8000)"

section \<open>The kernel version gate\<close>

text \<open>
  \<^verbatim>\<open>host_info_.kernel_version >= cgroup_v2_first_kernel_version\<close> compares with a
  \<^verbatim>\<open>std::string\<close>. \<^verbatim>\<open>HostInfo\<close> is declared in \<^verbatim>\<open>common/host_info.h\<close>, which is not among
  the sources at hand; its \<^verbatim>\<open>kernel_version\<close> is taken to be a \<^verbatim>\<open>std::string\<close> as well (the
  release string of the running kernel), so the comparison is \<^verbatim>\<open>std::string\<close>'s:
  \<^verbatim>\<open>lhs.compare(rhs) >= 0\<close>, byte by byte, the shorter string first when one is a prefix of
  the other.
\<close>

fun string_compare :: "string \<Rightarrow> string \<Rightarrow> int" where
  "string_compare [] [] = 0"
| "string_compare [] (y # ys) = -1"
| "string_compare (x # xs) [] = 1"
| "string_compare (x # xs) (y # ys) =
     (if (of_char x :: nat) < of_char y then -1
      else if (of_char y :: nat) < of_char x then 1
      else string_compare xs ys)"

definition string_ge :: "string \<Rightarrow> string \<Rightarrow> bool" where
  "string_ge lhs rhs = (string_compare lhs rhs \<ge> 0)"

definition cgroup_v2_first_kernel_version :: string where
  "cgroup_v2_first_kernel_version = ''4.6''"

section \<open>The existing-hierarchy walker\<close>

text \<open>
  The state of one run of \<^verbatim>\<open>trigger_existing_cgroup_probe\<close>: the local \<^verbatim>\<open>dirs_stack\<close> (top
  of the stack first), the member \<^verbatim>\<open>close_dir_error_count_\<close> and the calls made so far.
  The member is declared in \<^verbatim>\<open>cgroup_prober.h\<close>, which is not among the sources at hand;
  it only ever counts up by one per closed directory and is taken as a natural number.
\<close>

record walk_state =
  dirs_stack :: "string list"
  close_dir_error_count :: nat
  trace :: "event list"

definition emit :: "event \<Rightarrow> walk_state \<Rightarrow> walk_state" where
  "emit e w = w\<lparr>trace := trace w @ [e]\<rparr>"

definition periodic_cb :: "walk_state \<Rightarrow> walk_state" where
  "periodic_cb w = emit PeriodicCb w"

definition check_cb :: "string \<Rightarrow> walk_state \<Rightarrow> walk_state" where
  "check_cb msg w = emit (CheckCb msg) w"

text \<open>
  \<^verbatim>\<open>int status = closedir(dir); if (status != 0) close_dir_error_count_++;\<close>
\<close>

definition closedir :: "os_env \<Rightarrow> string \<Rightarrow> walk_state \<Rightarrow> walk_state" where
  "closedir env dir_name w =
     (let status = closedir_status env dir_name;
          w' = emit (Closedir dir_name status) w
      in if status \<noteq> 0
         then w'\<lparr>close_dir_error_count := close_dir_error_count w' + 1\<rparr>
         else w')"

text \<open>
  \<^verbatim>\<open>while ((ent = readdir(dir)) != NULL)\<close> over the entries of the directory. The
  \<^verbatim>\<open>continue\<close> on \<^verbatim>\<open>"."\<close> and \<^verbatim>\<open>".."\<close> also skips the call of \<^verbatim>\<open>periodic_cb\<close>.
\<close>

fun readdir_loop :: "string \<Rightarrow> dirent list \<Rightarrow> walk_state \<Rightarrow> walk_state" where
  "readdir_loop dir_name [] w = w"
| "readdir_loop dir_name (ent # ents) w =
     (if d_type ent = DT_DIR then
        if d_name ent = ''.'' \<or> d_name ent = ''..'' then readdir_loop dir_name ents w
        else readdir_loop dir_name ents
               (periodic_cb
                  (emit (Emplace dir_name (d_name ent))
                     (w\<lparr>dirs_stack := (dir_name @ ''/'' @ d_name ent) # dirs_stack w\<rparr>)))
      else readdir_loop dir_name ents (periodic_cb w))"

text \<open>One turn of the outer \<^verbatim>\<open>while (!dirs_stack.empty())\<close>, entered with a non-empty stack.\<close>

definition loop_body :: "os_env \<Rightarrow> string \<Rightarrow> walk_state \<Rightarrow> walk_state" where
  "loop_body env file_name w =
     (case dirs_stack w of
        [] \<Rightarrow> w
      | dir_name # rest \<Rightarrow>
          let w1 = (periodic_cb w)\<lparr>dirs_stack := rest\<rparr> in
          (case opendir_result env dir_name of
             None \<Rightarrow> emit (Opendir dir_name False) w1
           | Some ents \<Rightarrow>
               let w2 = emit (Opendir dir_name True) w1;
                   path = dir_name @ ''/'' @ file_name
               in if ifstream_fail env path
                  then closedir env dir_name (emit (IfstreamOpen path False) w2)
                  else closedir env dir_name
                         (readdir_loop dir_name ents
                            (emit (Getline path) (emit (IfstreamOpen path True) w2)))))"

partial_function (option) while_dirs :: "os_env \<Rightarrow> string \<Rightarrow> walk_state \<Rightarrow> walk_state option" where
  "while_dirs env file_name w =
     (if dirs_stack w = [] then Some w
      else while_dirs env file_name (loop_body env file_name w))"

text \<open>
  \<^verbatim>\<open>trigger_existing_cgroup_probe(cgroup_dir_name, file_name, periodic_cb)\<close>, run on a prober
  whose state is \<open>w\<close>; \<open>None\<close> when the loop never ends.
\<close>

definition trigger_existing_cgroup_probe ::
    "os_env \<Rightarrow> string \<Rightarrow> string \<Rightarrow> walk_state \<Rightarrow> walk_state option" where
  "trigger_existing_cgroup_probe env cgroup_dir_name file_name w =
     while_dirs env file_name (w\<lparr>dirs_stack := [cgroup_dir_name]\<rparr>)"

text \<open>
  What one turn of the loop does to a node, read off \<open>loop_body\<close>: the paths it pushes (in
  the order \<^verbatim>\<open>readdir\<close> yields them), the calls it makes, and whether its \<^verbatim>\<open>closedir\<close>
  counts as an error. The lemmas \<open>stack_loop_body\<close>, \<open>trace_loop_body\<close> and
  \<open>count_loop_body\<close> below prove that \<open>loop_body\<close> does exactly this.
\<close>

definition subdirs :: "string \<Rightarrow> dirent list \<Rightarrow> string list" where
  "subdirs dir_name ents =
     map (\<lambda>e. dir_name @ ''/'' @ d_name e)
       (filter (\<lambda>e. d_type e = DT_DIR \<and> d_name e \<noteq> ''.'' \<and> d_name e \<noteq> ''..'') ents)"

fun readdir_events :: "string \<Rightarrow> dirent list \<Rightarrow> event list" where
  "readdir_events dir_name [] = []"
| "readdir_events dir_name (ent # ents) =
     (if d_type ent = DT_DIR then
        if d_name ent = ''.'' \<or> d_name ent = ''..'' then readdir_events dir_name ents
        else Emplace dir_name (d_name ent) # PeriodicCb # readdir_events dir_name ents
      else PeriodicCb # readdir_events dir_name ents)"

definition walk_children :: "os_env \<Rightarrow> string \<Rightarrow> string \<Rightarrow> string list" where
  "walk_children env file_name p =
     (case opendir_result env p of
        None \<Rightarrow> []
      | Some ents \<Rightarrow> if ifstream_fail env (p @ ''/'' @ file_name) then [] else subdirs p ents)"

definition node_events :: "os_env \<Rightarrow> string \<Rightarrow> string \<Rightarrow> event list" where
  "node_events env file_name p =
     PeriodicCb #
     (case opendir_result env p of
        None \<Rightarrow> [Opendir p False]
      | Some ents \<Rightarrow>
          Opendir p True #
          (if ifstream_fail env (p @ ''/'' @ file_name)
           then [IfstreamOpen (p @ ''/'' @ file_name) False, Closedir p (closedir_status env p)]
           else [IfstreamOpen (p @ ''/'' @ file_name) True, Getline (p @ ''/'' @ file_name)]
                @ readdir_events p ents @ [Closedir p (closedir_status env p)]))"

definition close_fails :: "os_env \<Rightarrow> string \<Rightarrow> bool" where
  "close_fails env p = (opendir_result env p \<noteq> None \<and> closedir_status env p \<noteq> 0)"

text \<open>The calls a run made: the trace it added to the one it started with.\<close>

definition new_events :: "walk_state \<Rightarrow> walk_state \<Rightarrow> event list" where
  "new_events w w' = drop (length (trace w)) (trace w')"

text \<open>The directories a trace visits (pops and tries to open), and the files it opens.\<close>

fun visited :: "event list \<Rightarrow> string list" where
  "visited [] = []"
| "visited (Opendir p ok # es) = p # visited es"
| "visited (e # es) = visited es"

fun opened_files :: "event list \<Rightarrow> string list" where
  "opened_files [] = []"
| "opened_files (IfstreamOpen p ok # es) = p # opened_files es"
| "opened_files (e # es) = opened_files es"

fun failed_closes :: "event list \<Rightarrow> nat" where
  "failed_closes [] = 0"
| "failed_closes (Closedir p status # es) = (if status \<noteq> 0 then 1 else 0) + failed_closes es"
| "failed_closes (e # es) = failed_closes es"


section \<open>Directory trees\<close>

text \<open>
  A hierarchy is given by the children of each path. \<open>nodes_upto ch n p\<close> lists the nodes
  of the tree below \<open>p\<close>, parents first, down to depth \<open>n\<close>; \<open>depth_le ch n p\<close> says that
  the tree below \<open>p\<close> ends within depth \<open>n\<close>, so that it is finite and \<open>nodes_upto ch n p\<close>
  lists all of it. \<open>dir_children\<close> are the subdirectories of a directory as the claims
  speak of them: the entries \<^verbatim>\<open>readdir\<close> reports as directories, but for \<^verbatim>\<open>"."\<close> and
  \<^verbatim>\<open>".."\<close>; \<open>walk_children\<close> above are the ones the walker descends into.
\<close>

definition dir_children :: "os_env \<Rightarrow> string \<Rightarrow> string list" where
  "dir_children env p =
     (case opendir_result env p of None \<Rightarrow> [] | Some ents \<Rightarrow> subdirs p ents)"

fun nodes_upto :: "(string \<Rightarrow> string list) \<Rightarrow> nat \<Rightarrow> string \<Rightarrow> string list" where
  "nodes_upto ch 0 p = [p]"
| "nodes_upto ch (Suc n) p = p # concat (map (nodes_upto ch n) (ch p))"

fun depth_le :: "(string \<Rightarrow> string list) \<Rightarrow> nat \<Rightarrow> string \<Rightarrow> bool" where
  "depth_le ch 0 p = (ch p = [])"
| "depth_le ch (Suc n) p = list_all (depth_le ch n) (ch p)"

section \<open>The startup sequence\<close>

definition kill_kss_probe_alternatives :: "string \<times> (string \<times> string) list" where
  "kill_kss_probe_alternatives =
     (''kill css'',
      [(''on_kill_css'', ''kill_css''),
       (''on_kill_css'', ''css_clear_dir''),
       (''on_cgroup_destroy_locked'', ''cgroup_destroy_locked'')])"

definition css_populate_dir_probe_alternatives :: "string \<times> (string \<times> string) list" where
  "css_populate_dir_probe_alternatives =
     (''css populate dir'',
      [(''on_css_populate_dir'', ''css_populate_dir''),
       (''on_cgroup_populate_dir'', ''cgroup_populate_dir'')])"

text \<open>
  The calls on \<^verbatim>\<open>probe_handler\<close> are recorded as events; what the handler does with them
  is outside this file of the repository.
\<close>

definition start_probes :: "walk_state \<Rightarrow> walk_state" where
  "start_probes w =
     (let w1 = periodic_cb (emit (StartProbeAlternatives (fst kill_kss_probe_alternatives)
                                    (snd kill_kss_probe_alternatives)) w);
          w2 = periodic_cb (emit (StartProbeAlternatives (fst css_populate_dir_probe_alternatives)
                                    (snd css_populate_dir_probe_alternatives)) w1);
          w3 = emit (StartProbe ''on_cgroup_clone_children_read'' ''cgroup_clone_children_read'') w2;
          w4 = emit (StartProbe ''on_cgroup_attach_task'' ''cgroup_attach_task'') w3
      in check_cb ''cgroup prober startup'' (periodic_cb w4))"

definition existing_cgroups_v1 :: "os_env \<Rightarrow> walk_state \<Rightarrow> walk_state option" where
  "existing_cgroups_v1 env w =
     (let cgroup_v1_mountpoint = find_cgroup_v1_mountpoint env in
      do {
        w1 \<leftarrow> (if cgroup_v1_mountpoint \<noteq> []
               then do {
                 w' \<leftarrow> trigger_existing_cgroup_probe env cgroup_v1_mountpoint
                        ''cgroup.clone_children'' w;
                 Some (check_cb ''trigger_cgroup_clone_children_read()'' w')
               }
               else Some w);
        Some (emit (CleanupProbe ''cgroup_clone_children_read'') w1)
      })"

definition existing_cgroups_v2 :: "os_env \<Rightarrow> string \<Rightarrow> walk_state \<Rightarrow> walk_state option" where
  "existing_cgroups_v2 env kernel_version w =
     (if string_ge kernel_version cgroup_v2_first_kernel_version then
        let w1 = emit (StartProbe ''on_cgroup_control'' ''cgroup_control'') w;
            w2 = emit (StartKretprobe ''onret_cgroup_control'' ''cgroup_control'') w1;
            cgroup_v2_mountpoint = find_cgroup_v2_mountpoint env
        in do {
          w3 \<leftarrow> (if cgroup_v2_mountpoint \<noteq> []
                 then do {
                   w' \<leftarrow> trigger_existing_cgroup_probe env cgroup_v2_mountpoint
                          ''cgroup.controllers'' w2;
                   Some (check_cb ''trigger_cgroup_control()'' w')
                 }
                 else Some w2);
          Some (emit (CleanupProbe ''cgroup_control'')
                  (emit (CleanupKretprobe ''cgroup_control'') w3))
        }
      else Some w)"

text \<open>
  The constructor, on a host with the given kernel version: the state of the new prober
  and the calls made, or \<open>None\<close> when a walk never ends. The initialiser list sets
  \<^verbatim>\<open>close_dir_error_count_(0)\<close>.
\<close>

definition fresh_prober :: walk_state where
  "fresh_prober = \<lparr>dirs_stack = [], close_dir_error_count = 0, trace = []\<rparr>"

definition CgroupProber :: "os_env \<Rightarrow> string \<Rightarrow> walk_state option" where
  "CgroupProber env kernel_version =
     do {
       w1 \<leftarrow> existing_cgroups_v1 env (start_probes fresh_prober);
       w2 \<leftarrow> existing_cgroups_v2 env kernel_version w1;
       Some (check_cb ''cgroup prober cleanup()'' (periodic_cb w2))
     }"

text \<open>
  The calls that belong to the cgroup v2 block of the constructor, and those that belong
  to the v1 backfill: the probe handler calls on \<^verbatim>\<open>cgroup_control\<close>, the two checkpoints,
  and the opening and reading of a marker file of the one or the other kind.
\<close>

definition ends_with :: "string \<Rightarrow> string \<Rightarrow> bool" where
  "ends_with sfx s = (length sfx \<le> length s \<and> drop (length s - length sfx) s = sfx)"

fun v2_call :: "event \<Rightarrow> bool" where
  "v2_call (StartProbe handler symbol) = (symbol = ''cgroup_control'')"
| "v2_call (StartKretprobe handler symbol) = (symbol = ''cgroup_control'')"
| "v2_call (CleanupProbe symbol) = (symbol = ''cgroup_control'')"
| "v2_call (CleanupKretprobe symbol) = (symbol = ''cgroup_control'')"
| "v2_call (CheckCb msg) = (msg = ''trigger_cgroup_control()'')"
| "v2_call (IfstreamOpen p ok) = ends_with ''/cgroup.controllers'' p"
| "v2_call (Getline p) = ends_with ''/cgroup.controllers'' p"
| "v2_call e = False"

fun v1_backfill_call :: "event \<Rightarrow> bool" where
  "v1_backfill_call (CheckCb msg) = (msg = ''trigger_cgroup_clone_children_read()'')"
| "v1_backfill_call (IfstreamOpen p ok) = ends_with ''/cgroup.clone_children'' p"
| "v1_backfill_call (Getline p) = ends_with ''/cgroup.clone_children'' p"
| "v1_backfill_call e = False"

section \<open>Attaching a set of probe alternatives\<close>

text \<open>
  Modelled from the spec: \<^verbatim>\<open>ProbeHandler::start_probe(bpf_module, ProbeAlternatives)\<close> is
  defined in \<^verbatim>\<open>probe_handler.cc\<close>, which is not among the sources at hand. The spec has it
  try the (handler, symbol) pairs in the exact declared order and stop at the first that
  attaches without error. \<open>attaches\<close> tells which pairs the running kernel accepts; the
  result is the list of pairs attempted, in order, and whether one of them attached.
\<close>

fun start_probe_alternatives ::
    "(string \<times> string \<Rightarrow> bool) \<Rightarrow> (string \<times> string) list \<Rightarrow> (string \<times> string) list \<times> bool" where
  "start_probe_alternatives attaches [] = ([], False)"
| "start_probe_alternatives attaches (alt # alts) =
     (if attaches alt then ([alt], True)
      else case start_probe_alternatives attaches alts of
             (attempted, ok) \<Rightarrow> (alt # attempted, ok))"

section \<open>Concrete hosts\<close>

text \<open>
  A host whose only cgroup marker is \<^verbatim>\<open>/sys/fs/cgroup/memory/cgroup.clone_children\<close>, a
  regular file of mode \<^verbatim>\<open>0100644\<close>; \<^verbatim>\<open>/sys/fs/cgroup/cgroup.controllers\<close> is a directory
  there (mode \<^verbatim>\<open>040755\<close>).
\<close>

definition host_v1_third :: os_env where
  "host_v1_third =
     \<lparr>opendir_result = (\<lambda>p. None),
      ifstream_fail = (\<lambda>p. True),
      closedir_status = (\<lambda>p. 0),
      stat_mode = (\<lambda>p. if p = ''/sys/fs/cgroup/memory/cgroup.clone_children'' then Some 0x81A4
                        else if p = ''/sys/fs/cgroup/cgroup.controllers'' then Some 0x41ED
                        else None)\<rparr>"

text \<open>
  A host where \<^verbatim>\<open>/r\<close> holds one subdirectory \<^verbatim>\<open>a\<close>, and no file can be opened for
  reading.
\<close>

definition host_marker_missing :: os_env where
  "host_marker_missing =
     \<lparr>opendir_result =
        (\<lambda>p. if p = ''/r'' then
                Some [\<lparr>d_name = ''.'', d_type = DT_DIR\<rparr>, \<lparr>d_name = ''..'', d_type = DT_DIR\<rparr>,
                      \<lparr>d_name = ''a'', d_type = DT_DIR\<rparr>]
              else if p = ''/r/a'' then
                Some [\<lparr>d_name = ''.'', d_type = DT_DIR\<rparr>, \<lparr>d_name = ''..'', d_type = DT_DIR\<rparr>]
              else None),
      ifstream_fail = (\<lambda>p. True),
      closedir_status = (\<lambda>p. 0),
      stat_mode = (\<lambda>p. None)\<rparr>"

text \<open>
  A host where \<^verbatim>\<open>/r\<close> holds its marker file, a subdirectory \<^verbatim>\<open>sub\<close>, a symbolic link
  \<^verbatim>\<open>lnk\<close> to a directory, and a directory \<^verbatim>\<open>unk\<close> whose type the filesystem does not
  report; every file opens.
\<close>

definition host_links :: os_env where
  "host_links =
     \<lparr>opendir_result =
        (\<lambda>p. if p = ''/r'' then
                Some [\<lparr>d_name = ''.'', d_type = DT_DIR\<rparr>, \<lparr>d_name = ''..'', d_type = DT_DIR\<rparr>,
                      \<lparr>d_name = ''cgroup.clone_children'', d_type = DT_REG\<rparr>,
                      \<lparr>d_name = ''sub'', d_type = DT_DIR\<rparr>,
                      \<lparr>d_name = ''lnk'', d_type = DT_LNK\<rparr>,
                      \<lparr>d_name = ''unk'', d_type = DT_UNKNOWN\<rparr>]
              else if p = ''/r/sub'' \<or> p = ''/r/lnk'' \<or> p = ''/r/unk'' then
                Some [\<lparr>d_name = ''.'', d_type = DT_DIR\<rparr>, \<lparr>d_name = ''..'', d_type = DT_DIR\<rparr>,
                      \<lparr>d_name = ''cgroup.clone_children'', d_type = DT_REG\<rparr>]
              else None),
      ifstream_fail = (\<lambda>p. False),
      closedir_status = (\<lambda>p. 0),
      stat_mode = (\<lambda>p. None)\<rparr>"

definition host_links_run :: walk_state where
  "host_links_run =
     \<lparr>dirs_stack = [], close_dir_error_count = 0,
      trace = [PeriodicCb, Opendir ''/r'' True,
               IfstreamOpen ''/r/cgroup.clone_children'' True, Getline ''/r/cgroup.clone_children'',
               PeriodicCb, Emplace ''/r'' ''sub'', PeriodicCb, PeriodicCb, PeriodicCb,
               Closedir ''/r'' 0,
               PeriodicCb, Opendir ''/r/sub'' True,
               IfstreamOpen ''/r/sub/cgroup.clone_children'' True,
               Getline ''/r/sub/cgroup.clone_children'',
               PeriodicCb, Closedir ''/r/sub'' 0]\<rparr>"

definition host_marker_missing_run :: walk_state where
  "host_marker_missing_run =
     \<lparr>dirs_stack = [], close_dir_error_count = 0,
      trace = [PeriodicCb, Opendir ''/r'' True,
               IfstreamOpen ''/r/cgroup.clone_children'' False, Closedir ''/r'' 0]\<rparr>"



text \<open>
  The tree \<^verbatim>\<open>/t/cgA\<close> with its one child \<^verbatim>\<open>/t/cgA/cgA1\<close>, each holding a readable regular
  file \<^verbatim>\<open>cgroup.clone_children\<close>; every close succeeds.
\<close>

definition host_cgA :: os_env where
  "host_cgA =
     \<lparr>opendir_result =
        (\<lambda>p. if p = ''/t/cgA'' then
                Some [\<lparr>d_name = ''.'', d_type = DT_DIR\<rparr>, \<lparr>d_name = ''..'', d_type = DT_DIR\<rparr>,
                      \<lparr>d_name = ''cgA1'', d_type = DT_DIR\<rparr>,
                      \<lparr>d_name = ''cgroup.clone_children'', d_type = DT_REG\<rparr>]
              else if p = ''/t/cgA/cgA1'' then
                Some [\<lparr>d_name = ''.'', d_type = DT_DIR\<rparr>, \<lparr>d_name = ''..'', d_type = DT_DIR\<rparr>,
                      \<lparr>d_name = ''cgroup.clone_children'', d_type = DT_REG\<rparr>]
              else None),
      ifstream_fail = (\<lambda>p. p \<noteq> ''/t/cgA/cgroup.clone_children'' \<and>
                           p \<noteq> ''/t/cgA/cgA1/cgroup.clone_children''),
      closedir_status = (\<lambda>p. 0),
      stat_mode = (\<lambda>p. if p = ''/t/cgA/cgroup.clone_children'' \<or>
                           p = ''/t/cgA/cgA1/cgroup.clone_children'' then Some 0x81A4
                        else if p = ''/t/cgA'' \<or> p = ''/t/cgA/cgA1'' then Some 0x41ED
                        else None)\<rparr>"

definition host_cgA_run :: walk_state where
  "host_cgA_run =
     \<lparr>dirs_stack = [], close_dir_error_count = 0,
      trace = [PeriodicCb, Opendir ''/t/cgA'' True,
               IfstreamOpen ''/t/cgA/cgroup.clone_children'' True,
               Getline ''/t/cgA/cgroup.clone_children'',
               Emplace ''/t/cgA'' ''cgA1'', PeriodicCb, PeriodicCb,
               Closedir ''/t/cgA'' 0,
               PeriodicCb, Opendir ''/t/cgA/cgA1'' True,
               IfstreamOpen ''/t/cgA/cgA1/cgroup.clone_children'' True,
               Getline ''/t/cgA/cgA1/cgroup.clone_children'',
               PeriodicCb, Closedir ''/t/cgA/cgA1'' 0]\<rparr>"

text \<open>
  A host in hybrid mode: the v1 memory hierarchy \<^verbatim>\<open>/sys/fs/cgroup/memory\<close> holds the cgroup
  \<^verbatim>\<open>docker\<close>, and \<^verbatim>\<open>/sys/fs/cgroup\<close> carries \<^verbatim>\<open>cgroup.controllers\<close>. Below: what the
  constructor does there on kernel \<^verbatim>\<open>5.4\<close>, and on \<open>host_marker_missing\<close> on kernel
  \<^verbatim>\<open>3.10\<close>.
\<close>

definition host_hybrid :: os_env where
  "host_hybrid =
     \<lparr>opendir_result =
        (\<lambda>p. if p = ''/sys/fs/cgroup/memory'' then
                Some [\<lparr>d_name = ''.'', d_type = DT_DIR\<rparr>, \<lparr>d_name = ''..'', d_type = DT_DIR\<rparr>,
                      \<lparr>d_name = ''cgroup.clone_children'', d_type = DT_REG\<rparr>,
                      \<lparr>d_name = ''docker'', d_type = DT_DIR\<rparr>]
              else if p = ''/sys/fs/cgroup/memory/docker'' then
                Some [\<lparr>d_name = ''.'', d_type = DT_DIR\<rparr>, \<lparr>d_name = ''..'', d_type = DT_DIR\<rparr>,
                      \<lparr>d_name = ''cgroup.clone_children'', d_type = DT_REG\<rparr>]
              else if p = ''/sys/fs/cgroup'' then
                Some [\<lparr>d_name = ''.'', d_type = DT_DIR\<rparr>, \<lparr>d_name = ''..'', d_type = DT_DIR\<rparr>,
                      \<lparr>d_name = ''cgroup.controllers'', d_type = DT_REG\<rparr>,
                      \<lparr>d_name = ''memory'', d_type = DT_DIR\<rparr>]
              else None),
      ifstream_fail = (\<lambda>p. p \<noteq> ''/sys/fs/cgroup/memory/cgroup.clone_children'' \<and>
                           p \<noteq> ''/sys/fs/cgroup/memory/docker/cgroup.clone_children'' \<and>
                           p \<noteq> ''/sys/fs/cgroup/cgroup.controllers''),
      closedir_status = (\<lambda>p. 0),
      stat_mode = (\<lambda>p. if p = ''/sys/fs/cgroup/memory/cgroup.clone_children'' then Some 0x81A4
                        else if p = ''/sys/fs/cgroup/cgroup.controllers'' then Some 0x8124
                        else None)\<rparr>"

definition host_hybrid_startup :: walk_state where
  "host_hybrid_startup =
     \<lparr>dirs_stack = [], close_dir_error_count = 0,
      trace =
        [StartProbeAlternatives ''kill css'' (snd kill_kss_probe_alternatives), PeriodicCb,
         StartProbeAlternatives ''css populate dir'' (snd css_populate_dir_probe_alternatives),
         PeriodicCb,
         StartProbe ''on_cgroup_clone_children_read'' ''cgroup_clone_children_read'',
         StartProbe ''on_cgroup_attach_task'' ''cgroup_attach_task'',
         PeriodicCb, CheckCb ''cgroup prober startup'',
         PeriodicCb, Opendir ''/sys/fs/cgroup/memory'' True,
         IfstreamOpen ''/sys/fs/cgroup/memory/cgroup.clone_children'' True,
         Getline ''/sys/fs/cgroup/memory/cgroup.clone_children'',
         PeriodicCb, Emplace ''/sys/fs/cgroup/memory'' ''docker'', PeriodicCb,
         Closedir ''/sys/fs/cgroup/memory'' 0,
         PeriodicCb, Opendir ''/sys/fs/cgroup/memory/docker'' True,
         IfstreamOpen ''/sys/fs/cgroup/memory/docker/cgroup.clone_children'' True,
         Getline ''/sys/fs/cgroup/memory/docker/cgroup.clone_children'',
         PeriodicCb, Closedir ''/sys/fs/cgroup/memory/docker'' 0,
         CheckCb ''trigger_cgroup_clone_children_read()'',
         CleanupProbe ''cgroup_clone_children_read'',
         StartProbe ''on_cgroup_control'' ''cgroup_control'',
         StartKretprobe ''onret_cgroup_control'' ''cgroup_control'',
         PeriodicCb, Opendir ''/sys/fs/cgroup'' True,
         IfstreamOpen ''/sys/fs/cgroup/cgroup.controllers'' True,
         Getline ''/sys/fs/cgroup/cgroup.controllers'',
         PeriodicCb, Emplace ''/sys/fs/cgroup'' ''memory'', PeriodicCb,
         Closedir ''/sys/fs/cgroup'' 0,
         PeriodicCb, Opendir ''/sys/fs/cgroup/memory'' True,
         IfstreamOpen ''/sys/fs/cgroup/memory/cgroup.controllers'' False,
         Closedir ''/sys/fs/cgroup/memory'' 0,
         CheckCb ''trigger_cgroup_control()'',
         CleanupKretprobe ''cgroup_control'', CleanupProbe ''cgroup_control'',
         PeriodicCb, CheckCb ''cgroup prober cleanup()'']\<rparr>"

definition host_marker_missing_startup :: walk_state where
  "host_marker_missing_startup =
     \<lparr>dirs_stack = [], close_dir_error_count = 0,
      trace =
        [StartProbeAlternatives ''kill css'' (snd kill_kss_probe_alternatives), PeriodicCb,
         StartProbeAlternatives ''css populate dir'' (snd css_populate_dir_probe_alternatives),
         PeriodicCb,
         StartProbe ''on_cgroup_clone_children_read'' ''cgroup_clone_children_read'',
         StartProbe ''on_cgroup_attach_task'' ''cgroup_attach_task'',
         PeriodicCb, CheckCb ''cgroup prober startup'',
         CleanupProbe ''cgroup_clone_children_read'',
         PeriodicCb, CheckCb ''cgroup prober cleanup()'']\<rparr>"

lemma find_v1_loop_find:
  "find_v1_loop env cs =
     (case List.find (is_cgroup_v1_mountpoint env) cs of None \<Rightarrow> [] | Some c \<Rightarrow> c)"
  by (induction cs) simp_all

lemma find_v2_loop_find:
  "find_v2_loop env cs =
     (case List.find (is_cgroup_v2_mountpoint env) cs of None \<Rightarrow> [] | Some c \<Rightarrow> c)"
  by (induction cs) simp_all

lemma v1_marker:
  "is_cgroup_v1_mountpoint env c = marker_is_regular_file env ''cgroup.clone_children'' c"
  by (simp add: is_cgroup_v1_mountpoint_def file_exists_def marker_is_regular_file_def
      S_ISREG_def S_IFMT_def S_IFREG_def split: option.splits)

lemma v2_marker:
  "is_cgroup_v2_mountpoint env c = marker_is_regular_file env ''cgroup.controllers'' c"
  by (simp add: is_cgroup_v2_mountpoint_def file_exists_def marker_is_regular_file_def
      S_ISREG_def S_IFMT_def S_IFREG_def split: option.splits)



section \<open>One turn of the loop\<close>

lemma trace_emit [simp]: "trace (emit e w) = trace w @ [e]"
  and stack_emit [simp]: "dirs_stack (emit e w) = dirs_stack w"
  and count_emit [simp]: "close_dir_error_count (emit e w) = close_dir_error_count w"
  by (simp_all add: emit_def)

lemma trace_closedir [simp]:
    "trace (closedir env d w) = trace w @ [Closedir d (closedir_status env d)]"
  and stack_closedir [simp]: "dirs_stack (closedir env d w) = dirs_stack w"
  and count_closedir [simp]:
    "close_dir_error_count (closedir env d w) =
       close_dir_error_count w + (if closedir_status env d \<noteq> 0 then 1 else 0)"
  by (simp_all add: closedir_def Let_def)

lemma stack_readdir_loop:
  "dirs_stack (readdir_loop d ents w) = rev (subdirs d ents) @ dirs_stack w"
  by (induction ents arbitrary: w) (simp_all add: subdirs_def periodic_cb_def)

lemma trace_readdir_loop:
  "trace (readdir_loop d ents w) = trace w @ readdir_events d ents"
  by (induction ents arbitrary: w) (simp_all add: periodic_cb_def)

lemma count_readdir_loop:
  "close_dir_error_count (readdir_loop d ents w) = close_dir_error_count w"
  by (induction ents arbitrary: w) (simp_all add: periodic_cb_def)

lemma stack_loop_body:
  "dirs_stack w = p # rest \<Longrightarrow>
   dirs_stack (loop_body env f w) = rev (walk_children env f p) @ rest"
  by (simp add: loop_body_def walk_children_def stack_readdir_loop periodic_cb_def Let_def
      split: option.splits)

lemma trace_loop_body:
  "dirs_stack w = p # rest \<Longrightarrow>
   trace (loop_body env f w) = trace w @ node_events env f p"
  by (simp add: loop_body_def node_events_def trace_readdir_loop periodic_cb_def Let_def
      split: option.splits)

lemma count_loop_body:
  "dirs_stack w = p # rest \<Longrightarrow>
   close_dir_error_count (loop_body env f w) =
     close_dir_error_count w + (if close_fails env p then 1 else 0)"
  by (simp add: loop_body_def close_fails_def count_readdir_loop periodic_cb_def Let_def
      split: option.splits)

section \<open>Reasoning about the loop\<close>

lemma while_dirs_rule:
  assumes run: "while_dirs env f w = Some w'" and init: "I w"
    and step: "\<And>v. I v \<Longrightarrow> dirs_stack v \<noteq> [] \<Longrightarrow> I (loop_body env f v)"
  shows "I w' \<and> dirs_stack w' = []"
proof -
  let ?P = "\<lambda>e g v v'. e = env \<and> g = f \<and> I v \<longrightarrow> I v' \<and> dirs_stack v' = []"
  have "?P env f w w'"
  proof (rule while_dirs.raw_induct[where P = ?P, OF _ run])
    fix wd e g v v'
    assume IH: "\<And>e g v v'. wd e g v = Some v' \<Longrightarrow> ?P e g v v'"
      and unf: "(if dirs_stack v = [] then Some v else wd e g (loop_body e g v)) = Some v'"
    show "?P e g v v'"
    proof (intro impI, elim conjE)
      assume e: "e = env" "g = f" and i: "I v"
      show "I v' \<and> dirs_stack v' = []"
      proof (cases "dirs_stack v = []")
        case True
        with unf have "v' = v" by simp
        with True i show ?thesis by simp
      next
        case False
        with unf have r: "wd e g (loop_body e g v) = Some v'" by simp
        have "I (loop_body e g v)" using step[OF i False] e by simp
        with IH[OF r] e show ?thesis by simp
      qed
    qed
  qed
  with init show ?thesis by simp
qed


lemma while_dirs_shape:
  assumes run: "while_dirs env f w = Some w'"
  shows "\<exists>ps. trace w' = trace w @ concat (map (node_events env f) ps) \<and>
          close_dir_error_count w' =
            close_dir_error_count w + length (filter (close_fails env) ps) \<and>
          dirs_stack w' = []"
proof -
  let ?I = "\<lambda>v. \<exists>ps. trace v = trace w @ concat (map (node_events env f) ps) \<and>
          close_dir_error_count v =
            close_dir_error_count w + length (filter (close_fails env) ps)"
  have init: "?I w" by (rule exI[of _ "[]"]) simp
  have step: "?I (loop_body env f v)" if i: "?I v" and ne: "dirs_stack v \<noteq> []" for v
  proof -
    from ne obtain p rest where pr: "dirs_stack v = p # rest" by (cases "dirs_stack v") auto
    from i obtain ps where ps: "trace v = trace w @ concat (map (node_events env f) ps)"
      "close_dir_error_count v = close_dir_error_count w + length (filter (close_fails env) ps)"
      by blast
    show ?thesis
      by (rule exI[of _ "ps @ [p]"])
         (simp add: trace_loop_body[OF pr] count_loop_body[OF pr] ps)
  qed
  from while_dirs_rule[of env f w w' ?I, OF run init step] show ?thesis by blast
qed


section \<open>What a run pushes and visits\<close>



lemma Emplace_readdir_events:
  "Emplace d n \<in> set (readdir_events p ents) \<Longrightarrow>
     d = p \<and> n \<noteq> ''.'' \<and> n \<noteq> ''..'' \<and> (\<exists>e \<in> set ents. d_name e = n \<and> d_type e = DT_DIR)"
  by (induction ents) (auto split: if_splits)

lemma Emplace_node_events:
  "Emplace d n \<in> set (node_events env f p) \<Longrightarrow>
     d = p \<and> \<not> ifstream_fail env (p @ ''/'' @ f) \<and> n \<noteq> ''.'' \<and> n \<noteq> ''..'' \<and>
     (\<exists>ents. opendir_result env p = Some ents \<and> (\<exists>e \<in> set ents. d_name e = n \<and> d_type e = DT_DIR))"
  by (auto simp: node_events_def split: option.splits if_splits dest: Emplace_readdir_events)

lemma trigger_shape:
  assumes "trigger_existing_cgroup_probe env root f w = Some w'"
  shows "\<exists>ps. new_events w w' = concat (map (node_events env f) ps) \<and>
          trace w' = trace w @ new_events w w' \<and>
          close_dir_error_count w' =
            close_dir_error_count w + length (filter (close_fails env) ps) \<and>
          dirs_stack w' = []"
  using while_dirs_shape[OF assms[unfolded trigger_existing_cgroup_probe_def]]
  by (auto simp: new_events_def)

lemma trigger_Emplace:
  assumes "trigger_existing_cgroup_probe env root f w = Some w'"
    and "Emplace d n \<in> set (new_events w w')"
  shows "\<not> ifstream_fail env (d @ ''/'' @ f) \<and> n \<noteq> ''.'' \<and> n \<noteq> ''..'' \<and>
     (\<exists>ents. opendir_result env d = Some ents \<and> (\<exists>e \<in> set ents. d_name e = n \<and> d_type e = DT_DIR))"
proof -
  from trigger_shape[OF assms(1)] obtain ps where
    "new_events w w' = concat (map (node_events env f) ps)" by blast
  with assms(2) obtain p where "Emplace d n \<in> set (node_events env f p)" by auto
  from Emplace_node_events[OF this] show ?thesis by blast
qed


lemma loop_body_new_events:
  "new_events v (loop_body env f v) =
     (case dirs_stack v of [] \<Rightarrow> [] | p # rest \<Rightarrow> node_events env f p)"
  by (cases "dirs_stack v") (simp_all add: new_events_def trace_loop_body, simp add: loop_body_def)

lemma loop_body_Emplace:
  assumes "Emplace d n \<in> set (new_events v (loop_body env f v))"
  shows "\<not> ifstream_fail env (d @ ''/'' @ f) \<and> n \<noteq> ''.'' \<and> n \<noteq> ''..'' \<and>
     (\<exists>ents. opendir_result env d = Some ents \<and> (\<exists>e \<in> set ents. d_name e = n \<and> d_type e = DT_DIR))"
proof (cases "dirs_stack v")
  case Nil
  with assms show ?thesis by (simp add: loop_body_new_events)
next
  case (Cons p rest)
  with assms have "Emplace d n \<in> set (node_events env f p)" by (simp add: loop_body_new_events)
  from Emplace_node_events[OF this] show ?thesis by blast
qed

lemma visited_append: "visited (xs @ ys) = visited xs @ visited ys"
  by (induction xs rule: visited.induct) simp_all

lemma visited_readdir_events: "visited (readdir_events p ents) = []"
  by (induction ents) simp_all

lemma visited_node_events: "visited (node_events env f p) = [p]"
  by (simp add: node_events_def visited_append visited_readdir_events split: option.splits)





section \<open>Finite trees\<close>

lemma depth_le_Suc: "depth_le ch n p \<Longrightarrow> depth_le ch (Suc n) p"
  by (induction n arbitrary: p) (auto simp: list_all_iff)

lemma nodes_upto_stable: "depth_le ch n p \<Longrightarrow> nodes_upto ch (Suc n) p = nodes_upto ch n p"
proof (induction n arbitrary: p)
  case 0
  then show ?case by simp
next
  case (Suc n)
  from Suc.prems have "\<forall>c \<in> set (ch p). depth_le ch n c" by (simp add: list_all_iff)
  with Suc.IH have "\<And>c. c \<in> set (ch p) \<Longrightarrow> nodes_upto ch (Suc n) c = nodes_upto ch n c"
    by blast
  then have eq: "map (nodes_upto ch (Suc n)) (ch p) = map (nodes_upto ch n) (ch p)"
    by (rule map_cong[OF refl])
  show ?case by (simp only: nodes_upto.simps(2)[of ch "Suc n" p] nodes_upto.simps(2)[of ch n p] eq)
qed

lemma nodes_upto_unfold:
  assumes "depth_le ch n p"
  shows "nodes_upto ch n p = p # concat (map (nodes_upto ch n) (ch p))"
proof (cases n)
  case 0
  with assms show ?thesis by simp
next
  case (Suc m)
  with assms have "\<forall>c \<in> set (ch p). depth_le ch m c" by (simp add: list_all_iff)
  then have "\<And>c. c \<in> set (ch p) \<Longrightarrow> nodes_upto ch m c = nodes_upto ch (Suc m) c"
    using nodes_upto_stable[of ch m] by simp
  then have eq: "map (nodes_upto ch m) (ch p) = map (nodes_upto ch (Suc m)) (ch p)"
    by (rule map_cong[OF refl])
  show ?thesis by (simp only: Suc nodes_upto.simps(2)[of ch m p] eq)
qed

lemma depth_le_children:
  assumes "depth_le ch n p"
  shows "list_all (depth_le ch n) (ch p)"
proof (cases n)
  case 0
  with assms show ?thesis by simp
next
  case (Suc m)
  with assms have "\<forall>c \<in> set (ch p). depth_le ch m c" by (simp add: list_all_iff)
  then have "\<forall>c \<in> set (ch p). depth_le ch (Suc m) c" using depth_le_Suc by blast
  with Suc show ?thesis by (simp only: list_all_iff)
qed

lemma mset_concat_map_rev:
  "mset (concat (map g (rev xs))) = mset (concat (map g xs))"
  by (induction xs) simp_all

lemma walk_children_cases:
  "walk_children env f p = [] \<or> walk_children env f p = dir_children env p"
  by (simp add: walk_children_def dir_children_def split: option.splits)

lemma depth_le_walk:
  "depth_le (dir_children env) n p \<Longrightarrow> depth_le (walk_children env f) n p"
proof (induction n arbitrary: p)
  case 0
  with walk_children_cases[of env f p] show ?case by auto
next
  case (Suc n)
  with walk_children_cases[of env f p] show ?case by (auto simp: list_all_iff)
qed

lemma nodes_upto_walk:
  "\<forall>q \<in> set (nodes_upto (dir_children env) n p). \<not> ifstream_fail env (q @ ''/'' @ f) \<Longrightarrow>
   nodes_upto (walk_children env f) n p = nodes_upto (dir_children env) n p"
proof (induction n arbitrary: p)
  case 0
  then show ?case by simp
next
  case (Suc n)
  then have "\<not> ifstream_fail env (p @ ''/'' @ f)" by simp
  then have ch: "walk_children env f p = dir_children env p"
    by (simp add: walk_children_def dir_children_def split: option.splits)
  have "\<And>c. c \<in> set (dir_children env p) \<Longrightarrow>
          nodes_upto (walk_children env f) n c = nodes_upto (dir_children env) n c"
    using Suc by auto
  then have eq: "map (nodes_upto (walk_children env f) n) (dir_children env p) =
        map (nodes_upto (dir_children env) n) (dir_children env p)"
    by (rule map_cong[OF refl])
  show ?case by (simp only: nodes_upto.simps ch eq)
qed

section \<open>The walk ends on a finite tree\<close>

lemma while_dirs_total:
  assumes "list_all (depth_le (walk_children env f) N) (dirs_stack w)"
  shows "\<exists>w'. while_dirs env f w = Some w' \<and>
           mset (visited (trace w')) =
             mset (visited (trace w)) +
             mset (concat (map (nodes_upto (walk_children env f) N) (dirs_stack w)))"
  using assms
proof (induction w rule: measure_induct_rule
    [where f = "\<lambda>w. length (concat (map (nodes_upto (walk_children env f) N) (dirs_stack w)))"])
  case (less w)
  let ?ch = "walk_children env f"
  let ?size = "\<lambda>w. length (concat (map (nodes_upto ?ch N) (dirs_stack w)))"
  show ?case
  proof (cases "dirs_stack w")
    case Nil
    then have "while_dirs env f w = Some w" by (subst while_dirs.simps) simp
    with Nil show ?thesis by simp
  next
    case (Cons p rest)
    let ?v = "loop_body env f w"
    from less.prems Cons have dp: "depth_le ?ch N p" and dr: "list_all (depth_le ?ch N) rest"
      by simp_all
    have sv: "dirs_stack ?v = rev (?ch p) @ rest" by (rule stack_loop_body[OF Cons])
    have np: "nodes_upto ?ch N p = p # concat (map (nodes_upto ?ch N) (?ch p))"
      by (rule nodes_upto_unfold[OF dp])
    have m: "mset (concat (map (nodes_upto ?ch N) (dirs_stack ?v))) + {#p#} =
             mset (concat (map (nodes_upto ?ch N) (dirs_stack w)))"
      by (simp add: sv Cons np mset_concat_map_rev)
    from arg_cong[OF m, of size] have "?size ?v < ?size w" by simp
    moreover have "list_all (depth_le ?ch N) (dirs_stack ?v)"
      using depth_le_children[OF dp] dr by (auto simp: sv list_all_iff)
    ultimately obtain w' where w': "while_dirs env f ?v = Some w'"
      "mset (visited (trace w')) =
         mset (visited (trace ?v)) + mset (concat (map (nodes_upto ?ch N) (dirs_stack ?v)))"
      using less.IH[of ?v] by blast
    have "while_dirs env f w = while_dirs env f ?v"
      using Cons by (subst while_dirs.simps) simp
    moreover have "visited (trace ?v) = visited (trace w) @ [p]"
      by (simp add: trace_loop_body[OF Cons] visited_append visited_node_events)
    ultimately show ?thesis using w' m by (auto simp: ac_simps)
  qed
qed

lemma trigger_total:
  assumes "depth_le (walk_children env f) n root"
  shows "\<exists>w'. trigger_existing_cgroup_probe env root f w = Some w' \<and>
           mset (visited (new_events w w')) = mset (nodes_upto (walk_children env f) n root)"
proof -
  let ?w0 = "w\<lparr>dirs_stack := [root]\<rparr>"
  from assms have "list_all (depth_le (walk_children env f) n) (dirs_stack ?w0)" by simp
  from while_dirs_total[OF this] obtain w' where
    w': "while_dirs env f ?w0 = Some w'"
       "mset (visited (trace w')) =
          mset (visited (trace w)) + mset (nodes_upto (walk_children env f) n root)"
    by auto
  then have run: "trigger_existing_cgroup_probe env root f w = Some w'"
    by (simp add: trigger_existing_cgroup_probe_def)
  from trigger_shape[OF run] have "trace w' = trace w @ new_events w w'" by blast
  then have "visited (trace w') = visited (trace w) @ visited (new_events w w')"
    by (metis visited_append)
  with w'(2) have "mset (visited (new_events w w')) = mset (nodes_upto (walk_children env f) n root)"
    by simp
  with run show ?thesis by blast
qed


section \<open>Mountpoint location returns the first match\<close>

lemma find_first_index:
  assumes "i < length cs" and "P (cs ! i)" and "\<forall>j<i. \<not> P (cs ! j)"
  shows "List.find P cs = Some (cs ! i)"
  using assms by (auto simp: find_Some_iff)

text \<open>
  C4. \<open>find_cgroup_v1_mountpoint\<close> and \<open>find_cgroup_v2_mountpoint\<close> return the first
  candidate of their list, in the declared order, below which the marker file exists and
  is a regular file by \<^verbatim>\<open>stat\<close> and \<^verbatim>\<open>S_ISREG\<close>; when no candidate qualifies they return
  the empty string; when only the third v1 candidate has its marker, the third is
  returned.
\<close>

theorem find_cgroup_mountpoint_first_match:
  "(\<forall>i < length cgroup_v1_mountpoints.
      marker_is_regular_file env ''cgroup.clone_children'' (cgroup_v1_mountpoints ! i) \<and>
      (\<forall>j < i. \<not> marker_is_regular_file env ''cgroup.clone_children'' (cgroup_v1_mountpoints ! j))
      \<longrightarrow> find_cgroup_v1_mountpoint env = cgroup_v1_mountpoints ! i) \<and>
   ((\<forall>c \<in> set cgroup_v1_mountpoints. \<not> marker_is_regular_file env ''cgroup.clone_children'' c)
      \<longrightarrow> find_cgroup_v1_mountpoint env = []) \<and>
   (\<forall>i < length cgroup_v2_mountpoints.
      marker_is_regular_file env ''cgroup.controllers'' (cgroup_v2_mountpoints ! i) \<and>
      (\<forall>j < i. \<not> marker_is_regular_file env ''cgroup.controllers'' (cgroup_v2_mountpoints ! j))
      \<longrightarrow> find_cgroup_v2_mountpoint env = cgroup_v2_mountpoints ! i) \<and>
   ((\<forall>c \<in> set cgroup_v2_mountpoints. \<not> marker_is_regular_file env ''cgroup.controllers'' c)
      \<longrightarrow> find_cgroup_v2_mountpoint env = []) \<and>
   (\<not> marker_is_regular_file env ''cgroup.clone_children'' ''/hostfs/sys/fs/cgroup/memory'' \<and>
    \<not> marker_is_regular_file env ''cgroup.clone_children'' ''/hostfs/cgroup/memory'' \<and>
    marker_is_regular_file env ''cgroup.clone_children'' ''/sys/fs/cgroup/memory''
      \<longrightarrow> find_cgroup_v1_mountpoint env = ''/sys/fs/cgroup/memory'')"
proof (intro conjI allI impI)
  fix i
  assume "i < length cgroup_v1_mountpoints"
    and "marker_is_regular_file env ''cgroup.clone_children'' (cgroup_v1_mountpoints ! i) \<and>
      (\<forall>j < i. \<not> marker_is_regular_file env ''cgroup.clone_children'' (cgroup_v1_mountpoints ! j))"
  then have "List.find (is_cgroup_v1_mountpoint env) cgroup_v1_mountpoints
               = Some (cgroup_v1_mountpoints ! i)"
    by (intro find_first_index) (simp_all add: v1_marker)
  then show "find_cgroup_v1_mountpoint env = cgroup_v1_mountpoints ! i"
    by (simp add: find_cgroup_v1_mountpoint_def find_v1_loop_find)
next
  assume "\<forall>c \<in> set cgroup_v1_mountpoints. \<not> marker_is_regular_file env ''cgroup.clone_children'' c"
  then have "List.find (is_cgroup_v1_mountpoint env) cgroup_v1_mountpoints = None"
    by (simp add: find_None_iff v1_marker)
  then show "find_cgroup_v1_mountpoint env = []"
    by (simp add: find_cgroup_v1_mountpoint_def find_v1_loop_find)
next
  fix i
  assume "i < length cgroup_v2_mountpoints"
    and "marker_is_regular_file env ''cgroup.controllers'' (cgroup_v2_mountpoints ! i) \<and>
      (\<forall>j < i. \<not> marker_is_regular_file env ''cgroup.controllers'' (cgroup_v2_mountpoints ! j))"
  then have "List.find (is_cgroup_v2_mountpoint env) cgroup_v2_mountpoints
               = Some (cgroup_v2_mountpoints ! i)"
    by (intro find_first_index) (simp_all add: v2_marker)
  then show "find_cgroup_v2_mountpoint env = cgroup_v2_mountpoints ! i"
    by (simp add: find_cgroup_v2_mountpoint_def find_v2_loop_find)
next
  assume "\<forall>c \<in> set cgroup_v2_mountpoints. \<not> marker_is_regular_file env ''cgroup.controllers'' c"
  then have "List.find (is_cgroup_v2_mountpoint env) cgroup_v2_mountpoints = None"
    by (simp add: find_None_iff v2_marker)
  then show "find_cgroup_v2_mountpoint env = []"
    by (simp add: find_cgroup_v2_mountpoint_def find_v2_loop_find)
next
  assume "\<not> marker_is_regular_file env ''cgroup.clone_children'' ''/hostfs/sys/fs/cgroup/memory'' \<and>
    \<not> marker_is_regular_file env ''cgroup.clone_children'' ''/hostfs/cgroup/memory'' \<and>
    marker_is_regular_file env ''cgroup.clone_children'' ''/sys/fs/cgroup/memory''"
  then show "find_cgroup_v1_mountpoint env = ''/sys/fs/cgroup/memory''"
    by (simp add: find_cgroup_v1_mountpoint_def cgroup_v1_mountpoints_def v1_marker)
qed

theorem find_cgroup_mountpoint_first_match_witness:
  "marker_is_regular_file host_v1_third ''cgroup.clone_children'' (cgroup_v1_mountpoints ! 2) \<and>
   \<not> marker_is_regular_file host_v1_third ''cgroup.clone_children'' (cgroup_v1_mountpoints ! 1) \<and>
   \<not> marker_is_regular_file host_v1_third ''cgroup.clone_children'' (cgroup_v1_mountpoints ! 0) \<and>
   find_cgroup_v1_mountpoint host_v1_third = ''/sys/fs/cgroup/memory'' \<and>
   find_cgroup_v2_mountpoint host_v1_third = []"
  using find_cgroup_mountpoint_first_match [of host_v1_third]
  by (simp add: marker_is_regular_file_def host_v1_third_def cgroup_v1_mountpoints_def
      cgroup_v2_mountpoints_def)


section \<open>Probe alternatives stop at the first success\<close>

lemma start_probe_alternatives_attempted:
  "fst (start_probe_alternatives attaches alts) =
     takeWhile (\<lambda>a. \<not> attaches a) alts @ take 1 (dropWhile (\<lambda>a. \<not> attaches a) alts)"
  by (induction alts) (auto split: prod.splits)

lemma start_probe_alternatives_ok:
  "snd (start_probe_alternatives attaches alts) = (\<exists>a \<in> set alts. attaches a)"
  by (induction alts) (auto split: prod.splits)

text \<open>
  C5. The alternatives of a set are attempted in their declared order, up to and
  including the first one that attaches and none after it: the pairs attempted are those
  before the first attaching one, followed by that one. For the three alternatives of
  "kill css", when the first fails and the second attaches, exactly the first two are
  attempted and \<^verbatim>\<open>cgroup_destroy_locked\<close> never is.
\<close>

theorem start_probe_alternatives_first_success:
  "fst (start_probe_alternatives attaches alts) =
     takeWhile (\<lambda>a. \<not> attaches a) alts @ take 1 (dropWhile (\<lambda>a. \<not> attaches a) alts) \<and>
   snd (start_probe_alternatives attaches alts) = (\<exists>a \<in> set alts. attaches a) \<and>
   (\<not> attaches (''on_kill_css'', ''kill_css'') \<and> attaches (''on_kill_css'', ''css_clear_dir'') \<longrightarrow>
      start_probe_alternatives attaches (snd kill_kss_probe_alternatives) =
        ([(''on_kill_css'', ''kill_css''), (''on_kill_css'', ''css_clear_dir'')], True) \<and>
      (''on_cgroup_destroy_locked'', ''cgroup_destroy_locked'')
        \<notin> set (fst (start_probe_alternatives attaches (snd kill_kss_probe_alternatives))))"
  by (simp add: start_probe_alternatives_attempted start_probe_alternatives_ok
      kill_kss_probe_alternatives_def)

theorem start_probe_alternatives_first_success_witness:
  "start_probe_alternatives (\<lambda>a. snd a = ''css_clear_dir'') (snd kill_kss_probe_alternatives) =
     ([(''on_kill_css'', ''kill_css''), (''on_kill_css'', ''css_clear_dir'')], True) \<and>
   (''on_cgroup_destroy_locked'', ''cgroup_destroy_locked'')
     \<notin> set (fst (start_probe_alternatives (\<lambda>a. snd a = ''css_clear_dir'')
                    (snd kill_kss_probe_alternatives)))"
  using start_probe_alternatives_first_success
    [of "\<lambda>a. snd a = ''css_clear_dir''" "snd kill_kss_probe_alternatives"]
  by simp

section \<open>The kernel version gate compares strings\<close>

text \<open>
  C2. The gate is \<^verbatim>\<open>std::string\<close>'s \<^verbatim>\<open>>=\<close>. It lets \<^verbatim>\<open>4.6\<close> and \<^verbatim>\<open>5.4\<close> through and holds
  \<^verbatim>\<open>3.10\<close> back, but it also holds back \<^verbatim>\<open>4.10\<close> and \<^verbatim>\<open>10.0\<close>, which are later kernels
  than \<^verbatim>\<open>4.6\<close>: the character \<^verbatim>\<open>1\<close> sorts before \<^verbatim>\<open>6\<close> and before \<^verbatim>\<open>4\<close>. On those kernels
  the whole cgroup v2 block is skipped: no call is made and the state is unchanged.
\<close>

theorem kernel_version_gate_is_lexicographic:
  "string_ge ''4.6'' cgroup_v2_first_kernel_version \<and>
   string_ge ''5.4'' cgroup_v2_first_kernel_version \<and>
   \<not> string_ge ''3.10'' cgroup_v2_first_kernel_version \<and>
   \<not> string_ge ''4.10'' cgroup_v2_first_kernel_version \<and>
   \<not> string_ge ''4.15.0-213-generic'' cgroup_v2_first_kernel_version \<and>
   \<not> string_ge ''10.0'' cgroup_v2_first_kernel_version \<and>
   existing_cgroups_v2 env ''4.10'' w = Some w \<and>
   existing_cgroups_v2 env ''10.0'' w = Some w"
  by (simp add: string_ge_def cgroup_v2_first_kernel_version_def existing_cgroups_v2_def)

section \<open>What the walker pushes\<close>

text \<open>
  C1 (as the code has it). When a node's directory opens and its marker file does not,
  the turn of the loop for that node closes the directory, counting a failed close, and
  goes on with the rest of the stack: it reads no entry and pushes nothing. In a whole
  run no entry of such a directory is ever pushed.
\<close>

theorem marker_open_failure_skips_children:
  assumes "opendir_result env d = Some ents"
    and "ifstream_fail env (d @ ''/'' @ file_name)"
  shows "(dirs_stack w = d # rest \<longrightarrow>
            loop_body env file_name w =
              \<lparr>dirs_stack = rest,
               close_dir_error_count =
                 close_dir_error_count w + (if closedir_status env d \<noteq> 0 then 1 else 0),
               trace = trace w @ [PeriodicCb, Opendir d True,
                                  IfstreamOpen (d @ ''/'' @ file_name) False,
                                  Closedir d (closedir_status env d)]\<rparr>) \<and>
         (trigger_existing_cgroup_probe env root file_name w = Some w' \<longrightarrow>
            (\<forall>n. Emplace d n \<notin> set (new_events w w')))"
proof (intro conjI impI allI)
  assume "dirs_stack w = d # rest"
  with assms show "loop_body env file_name w =
              \<lparr>dirs_stack = rest,
               close_dir_error_count =
                 close_dir_error_count w + (if closedir_status env d \<noteq> 0 then 1 else 0),
               trace = trace w @ [PeriodicCb, Opendir d True,
                                  IfstreamOpen (d @ ''/'' @ file_name) False,
                                  Closedir d (closedir_status env d)]\<rparr>"
    by (simp add: loop_body_def closedir_def periodic_cb_def emit_def Let_def)
next
  fix n
  assume "trigger_existing_cgroup_probe env root file_name w = Some w'"
  from trigger_Emplace[OF this, of d n] assms(2)
  show "Emplace d n \<notin> set (new_events w w')" by blast
qed

theorem marker_open_failure_skips_children_witness:
  "opendir_result host_marker_missing ''/r'' =
     Some [\<lparr>d_name = ''.'', d_type = DT_DIR\<rparr>, \<lparr>d_name = ''..'', d_type = DT_DIR\<rparr>,
           \<lparr>d_name = ''a'', d_type = DT_DIR\<rparr>] \<and>
   ifstream_fail host_marker_missing (''/r'' @ ''/'' @ ''cgroup.clone_children'') \<and>
   loop_body host_marker_missing ''cgroup.clone_children'' (fresh_prober\<lparr>dirs_stack := [''/r'']\<rparr>) =
     \<lparr>dirs_stack = [], close_dir_error_count = 0,
      trace = [PeriodicCb, Opendir ''/r'' True,
               IfstreamOpen ''/r/cgroup.clone_children'' False, Closedir ''/r'' 0]\<rparr> \<and>
   trigger_existing_cgroup_probe host_marker_missing ''/r'' ''cgroup.clone_children''
       (fresh_prober\<lparr>dirs_stack := [''/r'']\<rparr>) =
     Some \<lparr>dirs_stack = [], close_dir_error_count = 0,
           trace = [PeriodicCb, Opendir ''/r'' True,
                    IfstreamOpen ''/r/cgroup.clone_children'' False, Closedir ''/r'' 0]\<rparr> \<and>
   Emplace ''/r'' ''a'' \<notin> set (new_events (fresh_prober\<lparr>dirs_stack := [''/r'']\<rparr>)
     \<lparr>dirs_stack = [], close_dir_error_count = 0,
      trace = [PeriodicCb, Opendir ''/r'' True,
               IfstreamOpen ''/r/cgroup.clone_children'' False, Closedir ''/r'' 0]\<rparr>)"
proof -
  have o: "opendir_result host_marker_missing ''/r'' =
     Some [\<lparr>d_name = ''.'', d_type = DT_DIR\<rparr>, \<lparr>d_name = ''..'', d_type = DT_DIR\<rparr>,
           \<lparr>d_name = ''a'', d_type = DT_DIR\<rparr>]"
    by (simp add: host_marker_missing_def)
  have i: "ifstream_fail host_marker_missing (''/r'' @ ''/'' @ ''cgroup.clone_children'')"
    by (simp add: host_marker_missing_def)
  have s: "dirs_stack (fresh_prober\<lparr>dirs_stack := [''/r'']\<rparr>) = ''/r'' # []"
    by simp
  have r: "trigger_existing_cgroup_probe host_marker_missing ''/r'' ''cgroup.clone_children''
       (fresh_prober\<lparr>dirs_stack := [''/r'']\<rparr>) =
     Some \<lparr>dirs_stack = [], close_dir_error_count = 0,
           trace = [PeriodicCb, Opendir ''/r'' True,
                    IfstreamOpen ''/r/cgroup.clone_children'' False, Closedir ''/r'' 0]\<rparr>"
    by (simp add: trigger_existing_cgroup_probe_def fresh_prober_def while_dirs.simps
        loop_body_def host_marker_missing_def periodic_cb_def emit_def closedir_def Let_def)
  have c: "closedir_status host_marker_missing ''/r'' = 0"
    by (simp add: host_marker_missing_def)
  from marker_open_failure_skips_children[OF o i,
      where w = "fresh_prober\<lparr>dirs_stack := [''/r'']\<rparr>" and rest = "[]" and root = "''/r''"
        and w' = "\<lparr>dirs_stack = [], close_dir_error_count = 0,
           trace = [PeriodicCb, Opendir ''/r'' True,
                    IfstreamOpen ''/r/cgroup.clone_children'' False, Closedir ''/r'' 0]\<rparr>"]
    o i s r c
  show ?thesis by (simp add: fresh_prober_def)
qed

text \<open>
  C1 as stated fails: on \<open>host_marker_missing\<close> the directory \<^verbatim>\<open>/r\<close> opens and lists the
  subdirectory \<^verbatim>\<open>a\<close>, its marker does not open, and the run ends after closing \<^verbatim>\<open>/r\<close>:
  \<^verbatim>\<open>/r/a\<close> is neither pushed nor opened.
\<close>

theorem marker_open_failure_counterexample:
  "dir_children host_marker_missing ''/r'' = [''/r/a''] \<and>
   ifstream_fail host_marker_missing ''/r/cgroup.clone_children'' \<and>
   trigger_existing_cgroup_probe host_marker_missing ''/r'' ''cgroup.clone_children'' fresh_prober =
     Some \<lparr>dirs_stack = [], close_dir_error_count = 0,
           trace = [PeriodicCb, Opendir ''/r'' True,
                    IfstreamOpen ''/r/cgroup.clone_children'' False, Closedir ''/r'' 0]\<rparr>"
  by (simp add: trigger_existing_cgroup_probe_def fresh_prober_def while_dirs.simps
      loop_body_def host_marker_missing_def periodic_cb_def emit_def closedir_def Let_def
      dir_children_def subdirs_def)

text \<open>
  C8. No turn of the loop, from whatever state, pushes an entry named \<^verbatim>\<open>"."\<close> or
  \<^verbatim>\<open>".."\<close> onto the stack; so no run of the walker does, whatever directories it reads.
\<close>

theorem dot_entries_never_pushed:
  "(\<forall>d n. Emplace d n \<in> set (new_events v (loop_body env file_name v)) \<longrightarrow>
       n \<noteq> ''.'' \<and> n \<noteq> ''..'') \<and>
   (trigger_existing_cgroup_probe env root file_name w = Some w' \<longrightarrow>
     (\<forall>d n. Emplace d n \<in> set (new_events w w') \<longrightarrow> n \<noteq> ''.'' \<and> n \<noteq> ''..''))"
  using loop_body_Emplace[of _ _ v env file_name] trigger_Emplace[of env root file_name w w']
  by blast

lemma host_links_runs:
  "trigger_existing_cgroup_probe host_links ''/r'' ''cgroup.clone_children'' fresh_prober =
     Some host_links_run"
  by (simp add: trigger_existing_cgroup_probe_def fresh_prober_def while_dirs.simps
      loop_body_def host_links_def host_links_run_def periodic_cb_def emit_def closedir_def
      Let_def)

theorem dot_entries_never_pushed_witness:
  "trigger_existing_cgroup_probe host_links ''/r'' ''cgroup.clone_children'' fresh_prober =
     Some host_links_run \<and>
   Emplace ''/r'' ''sub'' \<in> set (new_events fresh_prober host_links_run) \<and>
   Emplace ''/r'' ''.'' \<notin> set (new_events fresh_prober host_links_run) \<and>
   Emplace ''/r'' ''..'' \<notin> set (new_events fresh_prober host_links_run)"
  using dot_entries_never_pushed[of fresh_prober host_links "''cgroup.clone_children''" "''/r''"
      fresh_prober host_links_run] host_links_runs
  by (auto simp: new_events_def fresh_prober_def host_links_run_def)



section \<open>Which nodes a walk visits\<close>


text \<open>
  C3 (as the code has it). The tree below a root is the one formed by the entries that
  \<^verbatim>\<open>readdir\<close> reports with \<^verbatim>\<open>d_type\<close> \<^verbatim>\<open>DT_DIR\<close>, but for \<^verbatim>\<open>"."\<close> and \<^verbatim>\<open>".."\<close>
  (\<open>dir_children\<close>). When that tree is finite the walk ends, and it visits exactly once
  each node of it that can be reached from the root through directories that open and
  whose marker file opens, and nothing else. When the marker file of every node of the
  tree opens, these are all the nodes of the tree. A directory whose entry is reported
  with another \<^verbatim>\<open>d_type\<close> is not a node of the tree and is not visited.
\<close>

theorem walk_visits_each_node_once:
  assumes "depth_le (dir_children env) n root"
  shows "\<exists>w'. trigger_existing_cgroup_probe env root file_name w = Some w' \<and>
           mset (visited (new_events w w')) =
             mset (nodes_upto (walk_children env file_name) n root) \<and>
           ((\<forall>p \<in> set (nodes_upto (dir_children env) n root).
                \<not> ifstream_fail env (p @ ''/'' @ file_name)) \<longrightarrow>
              mset (visited (new_events w w')) = mset (nodes_upto (dir_children env) n root))"
proof -
  from trigger_total[OF depth_le_walk[OF assms], of file_name w] obtain w' where
    w': "trigger_existing_cgroup_probe env root file_name w = Some w'"
      "mset (visited (new_events w w')) = mset (nodes_upto (walk_children env file_name) n root)"
    by blast
  have "mset (visited (new_events w w')) = mset (nodes_upto (dir_children env) n root)"
    if "\<forall>p \<in> set (nodes_upto (dir_children env) n root).
          \<not> ifstream_fail env (p @ ''/'' @ file_name)"
    using w'(2) nodes_upto_walk[OF that] by simp
  with w' show ?thesis by blast
qed

lemma host_links_tree:
  "depth_le (dir_children host_links) 1 ''/r''"
  "nodes_upto (dir_children host_links) 1 ''/r'' = [''/r'', ''/r/sub'']"
  by (simp_all add: dir_children_def host_links_def subdirs_def)

theorem walk_visits_each_node_once_witness:
  "depth_le (dir_children host_links) 1 ''/r'' \<and>
   nodes_upto (dir_children host_links) 1 ''/r'' = [''/r'', ''/r/sub''] \<and>
   trigger_existing_cgroup_probe host_links ''/r'' ''cgroup.clone_children'' fresh_prober =
     Some host_links_run \<and>
   mset (visited (new_events fresh_prober host_links_run)) = mset [''/r'', ''/r/sub''] \<and>
   opendir_result host_links ''/r/unk'' \<noteq> None \<and>
   \<not> ifstream_fail host_links ''/r/unk/cgroup.clone_children'' \<and>
   ''/r/unk'' \<notin> set (visited (new_events fresh_prober host_links_run))"
proof -
  have u: "opendir_result host_links ''/r/unk'' \<noteq> None"
    "\<not> ifstream_fail host_links ''/r/unk/cgroup.clone_children''"
    by (simp_all add: host_links_def)
  have m: "\<forall>p \<in> set (nodes_upto (dir_children host_links) 1 ''/r'').
             \<not> ifstream_fail host_links (p @ ''/'' @ ''cgroup.clone_children'')"
    by (simp add: host_links_def)
  from walk_visits_each_node_once[OF host_links_tree(1), of "''cgroup.clone_children''" fresh_prober]
  obtain w' where
    "trigger_existing_cgroup_probe host_links ''/r'' ''cgroup.clone_children'' fresh_prober = Some w'"
    "(\<forall>p \<in> set (nodes_upto (dir_children host_links) 1 ''/r'').
         \<not> ifstream_fail host_links (p @ ''/'' @ ''cgroup.clone_children'')) \<longrightarrow>
     mset (visited (new_events fresh_prober w')) =
       mset (nodes_upto (dir_children host_links) 1 ''/r'')"
    by blast
  with m host_links_runs have
    "mset (visited (new_events fresh_prober host_links_run)) =
       mset (nodes_upto (dir_children host_links) 1 ''/r'')"
    by simp
  then have v: "mset (visited (new_events fresh_prober host_links_run)) = mset [''/r'', ''/r/sub'']"
    by (simp only: host_links_tree(2))
  from mset_eq_setD[OF v] have "''/r/unk'' \<notin> set (visited (new_events fresh_prober host_links_run))"
    by simp
  with v u host_links_tree host_links_runs show ?thesis by blast
qed

text \<open>
  C3 as stated fails: below \<^verbatim>\<open>/r\<close> on \<open>host_marker_missing\<close> there are the two
  directories \<^verbatim>\<open>/r\<close> and \<^verbatim>\<open>/r/a\<close>, and the walk visits \<^verbatim>\<open>/r\<close> only.
\<close>

theorem walk_visits_each_node_once_counterexample:
  "depth_le (dir_children host_marker_missing) 1 ''/r'' \<and>
   nodes_upto (dir_children host_marker_missing) 1 ''/r'' = [''/r'', ''/r/a''] \<and>
   trigger_existing_cgroup_probe host_marker_missing ''/r'' ''cgroup.clone_children'' fresh_prober =
     Some host_marker_missing_run \<and>
   visited (new_events fresh_prober host_marker_missing_run) = [''/r'']"
  by (simp add: trigger_existing_cgroup_probe_def fresh_prober_def while_dirs.simps
      loop_body_def host_marker_missing_def host_marker_missing_run_def periodic_cb_def
      emit_def closedir_def Let_def dir_children_def subdirs_def new_events_def)

section \<open>The close-error counter\<close>

lemma failed_closes_append: "failed_closes (xs @ ys) = failed_closes xs + failed_closes ys"
  by (induction xs rule: failed_closes.induct) simp_all

lemma failed_closes_readdir_events: "failed_closes (readdir_events p ents) = 0"
  by (induction ents) simp_all

lemma failed_closes_node_events:
  "failed_closes (node_events env f p) = (if close_fails env p then 1 else 0)"
  by (simp add: node_events_def close_fails_def failed_closes_append
      failed_closes_readdir_events split: option.splits)









section \<open>The two-node hierarchy\<close>


lemma opened_files_append: "opened_files (xs @ ys) = opened_files xs @ opened_files ys"
  by (induction xs rule: opened_files.induct) simp_all

lemma opened_files_readdir_events: "opened_files (readdir_events p ents) = []"
  by (induction ents) simp_all

lemma opened_files_node_events:
  "opened_files (node_events env f p) =
     (case opendir_result env p of None \<Rightarrow> [] | Some ents \<Rightarrow> [p @ ''/'' @ f])"
  by (simp add: node_events_def opened_files_append opened_files_readdir_events
      split: option.splits)

text \<open>
  C9. On any host where \<^verbatim>\<open>/t/cgA\<close> opens and has the one subdirectory \<^verbatim>\<open>cgA1\<close>, which
  opens and has none, where both \<^verbatim>\<open>cgroup.clone_children\<close> files open and both closes
  succeed, the walk from \<^verbatim>\<open>/t/cgA\<close> ends, opens exactly the two marker files, each once,
  and leaves the close-error counter as it was (zero for a new prober).
\<close>

theorem backfill_cgA_opens_both_markers_once:
  assumes "opendir_result env ''/t/cgA'' = Some ents"
    and "subdirs ''/t/cgA'' ents = [''/t/cgA/cgA1'']"
    and "opendir_result env ''/t/cgA/cgA1'' = Some ents1"
    and "subdirs ''/t/cgA/cgA1'' ents1 = []"
    and "\<not> ifstream_fail env ''/t/cgA/cgroup.clone_children''"
    and "\<not> ifstream_fail env ''/t/cgA/cgA1/cgroup.clone_children''"
    and "closedir_status env ''/t/cgA'' = 0"
    and "closedir_status env ''/t/cgA/cgA1'' = 0"
  shows "\<exists>w'. trigger_existing_cgroup_probe env ''/t/cgA'' ''cgroup.clone_children'' w = Some w' \<and>
           opened_files (new_events w w') =
             [''/t/cgA/cgroup.clone_children'', ''/t/cgA/cgA1/cgroup.clone_children''] \<and>
           failed_closes (new_events w w') = 0 \<and>
           close_dir_error_count w' = close_dir_error_count w"
proof -
  let ?f = "''cgroup.clone_children''"
  let ?w0 = "w\<lparr>dirs_stack := [''/t/cgA'']\<rparr>"
  let ?v1 = "loop_body env ?f ?w0"
  let ?v2 = "loop_body env ?f ?v1"
  have cA: "walk_children env ?f ''/t/cgA'' = [''/t/cgA/cgA1'']"
    using assms by (simp add: walk_children_def)
  have cA1: "walk_children env ?f ''/t/cgA/cgA1'' = []"
    using assms by (simp add: walk_children_def)
  have s0: "dirs_stack ?w0 = ''/t/cgA'' # []" by simp
  have s1: "dirs_stack ?v1 = ''/t/cgA/cgA1'' # []"
    by (simp add: stack_loop_body[OF s0] cA)
  have s2: "dirs_stack ?v2 = []"
    by (simp add: stack_loop_body[OF s1] cA1)
  have "while_dirs env ?f ?w0 = while_dirs env ?f ?v1"
    using s0 by (subst while_dirs.simps) simp
  also have "\<dots> = while_dirs env ?f ?v2"
    using s1 by (subst while_dirs.simps) simp
  also have "\<dots> = Some ?v2"
    using s2 by (subst while_dirs.simps) simp
  finally have run: "trigger_existing_cgroup_probe env ''/t/cgA'' ?f w = Some ?v2"
    by (simp add: trigger_existing_cgroup_probe_def)
  have tr: "trace ?v2 = trace w @ node_events env ?f ''/t/cgA'' @ node_events env ?f ''/t/cgA/cgA1''"
    by (simp add: trace_loop_body[OF s1] trace_loop_body[OF s0])
  then have ne: "new_events w ?v2 =
      node_events env ?f ''/t/cgA'' @ node_events env ?f ''/t/cgA/cgA1''"
    by (simp add: new_events_def)
  have nf: "\<not> close_fails env ''/t/cgA''" "\<not> close_fails env ''/t/cgA/cgA1''"
    using assms by (simp_all add: close_fails_def)
  have "opened_files (new_events w ?v2) =
             [''/t/cgA/cgroup.clone_children'', ''/t/cgA/cgA1/cgroup.clone_children'']"
    using assms by (simp add: ne opened_files_append opened_files_node_events)
  moreover have "failed_closes (new_events w ?v2) = 0"
    using nf by (simp add: ne failed_closes_append failed_closes_node_events)
  moreover have "close_dir_error_count ?v2 = close_dir_error_count w"
    using nf by (simp add: count_loop_body[OF s1] count_loop_body[OF s0])
  ultimately show ?thesis using run by blast
qed

lemma host_cgA_runs:
  "trigger_existing_cgroup_probe host_cgA ''/t/cgA'' ''cgroup.clone_children'' fresh_prober =
     Some host_cgA_run"
  by (simp add: trigger_existing_cgroup_probe_def fresh_prober_def while_dirs.simps
      loop_body_def host_cgA_def host_cgA_run_def periodic_cb_def emit_def closedir_def Let_def)

theorem backfill_cgA_opens_both_markers_once_witness:
  "subdirs ''/t/cgA'' (the (opendir_result host_cgA ''/t/cgA'')) = [''/t/cgA/cgA1''] \<and>
   subdirs ''/t/cgA/cgA1'' (the (opendir_result host_cgA ''/t/cgA/cgA1'')) = [] \<and>
   marker_is_regular_file host_cgA ''cgroup.clone_children'' ''/t/cgA'' \<and>
   marker_is_regular_file host_cgA ''cgroup.clone_children'' ''/t/cgA/cgA1'' \<and>
   trigger_existing_cgroup_probe host_cgA ''/t/cgA'' ''cgroup.clone_children'' fresh_prober =
     Some host_cgA_run \<and>
   opened_files (new_events fresh_prober host_cgA_run) =
     [''/t/cgA/cgroup.clone_children'', ''/t/cgA/cgA1/cgroup.clone_children''] \<and>
   close_dir_error_count host_cgA_run = 0"
proof -
  have h: "opendir_result host_cgA ''/t/cgA'' = Some (the (opendir_result host_cgA ''/t/cgA''))"
    "subdirs ''/t/cgA'' (the (opendir_result host_cgA ''/t/cgA'')) = [''/t/cgA/cgA1'']"
    "opendir_result host_cgA ''/t/cgA/cgA1'' = Some (the (opendir_result host_cgA ''/t/cgA/cgA1''))"
    "subdirs ''/t/cgA/cgA1'' (the (opendir_result host_cgA ''/t/cgA/cgA1'')) = []"
    "\<not> ifstream_fail host_cgA ''/t/cgA/cgroup.clone_children''"
    "\<not> ifstream_fail host_cgA ''/t/cgA/cgA1/cgroup.clone_children''"
    "closedir_status host_cgA ''/t/cgA'' = 0"
    "closedir_status host_cgA ''/t/cgA/cgA1'' = 0"
    by (simp_all add: host_cgA_def subdirs_def)
  have m: "marker_is_regular_file host_cgA ''cgroup.clone_children'' ''/t/cgA''"
    "marker_is_regular_file host_cgA ''cgroup.clone_children'' ''/t/cgA/cgA1''"
    by (simp_all add: host_cgA_def marker_is_regular_file_def)
  from backfill_cgA_opens_both_markers_once[OF h, of fresh_prober] host_cgA_runs
  have "opened_files (new_events fresh_prober host_cgA_run) =
     [''/t/cgA/cgroup.clone_children'', ''/t/cgA/cgA1/cgroup.clone_children'']"
    "close_dir_error_count host_cgA_run = close_dir_error_count fresh_prober"
    by auto
  with h(2,4) m host_cgA_runs show ?thesis by (simp add: fresh_prober_def)
qed


section \<open>The order of the startup sequence\<close>

lemma ends_with_append: "ends_with sfx (d @ sfx)"
  by (simp add: ends_with_def)

lemma ends_with_last: "ends_with sfx s \<Longrightarrow> sfx \<noteq> [] \<Longrightarrow> last s = last sfx"
  by (metis ends_with_def append_take_drop_id last_appendR)

lemma not_v2_marker: "\<not> ends_with ''/cgroup.controllers'' (d @ ''/'' @ ''cgroup.clone_children'')"
proof
  assume "ends_with ''/cgroup.controllers'' (d @ ''/'' @ ''cgroup.clone_children'')"
  from ends_with_last[OF this] show False by simp
qed

lemma not_v1_marker: "\<not> ends_with ''/cgroup.clone_children'' (d @ ''/'' @ ''cgroup.controllers'')"
proof
  assume "ends_with ''/cgroup.clone_children'' (d @ ''/'' @ ''cgroup.controllers'')"
  from ends_with_last[OF this] show False by simp
qed

lemma readdir_events_calls:
  "e \<in> set (readdir_events p ents) \<Longrightarrow> \<not> v2_call e \<and> \<not> v1_backfill_call e \<and> (\<forall>s. e \<noteq> CleanupProbe s)"
  by (induction ents) (auto split: if_splits)

lemma node_events_v1_calls:
  assumes "e \<in> set (node_events env ''cgroup.clone_children'' p)"
  shows "\<not> v2_call e \<and> (\<forall>s. e \<noteq> CleanupProbe s)"
proof (cases "opendir_result env p")
  case None
  with assms show ?thesis by (auto simp: node_events_def)
next
  case (Some ents)
  with assms readdir_events_calls[of e p ents] not_v2_marker[of p] show ?thesis
    by (auto simp: node_events_def split: if_splits)
qed

lemma node_events_v2_calls:
  assumes "e \<in> set (node_events env ''cgroup.controllers'' p)"
  shows "\<not> v1_backfill_call e \<and> (\<forall>s. e \<noteq> CleanupProbe s)"
proof (cases "opendir_result env p")
  case None
  with assms show ?thesis by (auto simp: node_events_def)
next
  case (Some ents)
  with assms readdir_events_calls[of e p ents] not_v1_marker[of p] show ?thesis
    by (auto simp: node_events_def split: if_splits)
qed

lemma trigger_v1_calls:
  assumes "trigger_existing_cgroup_probe env root ''cgroup.clone_children'' w = Some w'"
  shows "trace w' = trace w @ new_events w w' \<and>
         (\<forall>e \<in> set (new_events w w'). \<not> v2_call e \<and> (\<forall>s. e \<noteq> CleanupProbe s))"
proof -
  from trigger_shape[OF assms] obtain ps where
    ps: "new_events w w' = concat (map (node_events env ''cgroup.clone_children'') ps)"
      "trace w' = trace w @ new_events w w'" by blast
  have "\<not> v2_call e \<and> (\<forall>s. e \<noteq> CleanupProbe s)" if "e \<in> set (new_events w w')" for e
  proof -
    from that ps(1) obtain p where "e \<in> set (node_events env ''cgroup.clone_children'' p)"
      by auto
    then show ?thesis by (rule node_events_v1_calls)
  qed
  with ps(2) show ?thesis by blast
qed

lemma trigger_v2_calls:
  assumes "trigger_existing_cgroup_probe env root ''cgroup.controllers'' w = Some w'"
  shows "trace w' = trace w @ new_events w w' \<and>
         (\<forall>e \<in> set (new_events w w'). \<not> v1_backfill_call e \<and> (\<forall>s. e \<noteq> CleanupProbe s))"
proof -
  from trigger_shape[OF assms] obtain ps where
    ps: "new_events w w' = concat (map (node_events env ''cgroup.controllers'') ps)"
      "trace w' = trace w @ new_events w w'" by blast
  have "\<not> v1_backfill_call e \<and> (\<forall>s. e \<noteq> CleanupProbe s)" if "e \<in> set (new_events w w')" for e
  proof -
    from that ps(1) obtain p where "e \<in> set (node_events env ''cgroup.controllers'' p)"
      by auto
    then show ?thesis by (rule node_events_v2_calls)
  qed
  with ps(2) show ?thesis by blast
qed

lemma trace_start_probes:
  "trace (start_probes w) = trace w @
     [StartProbeAlternatives ''kill css'' (snd kill_kss_probe_alternatives), PeriodicCb,
      StartProbeAlternatives ''css populate dir'' (snd css_populate_dir_probe_alternatives),
      PeriodicCb,
      StartProbe ''on_cgroup_clone_children_read'' ''cgroup_clone_children_read'',
      StartProbe ''on_cgroup_attach_task'' ''cgroup_attach_task'',
      PeriodicCb, CheckCb ''cgroup prober startup'']"
  by (simp add: start_probes_def periodic_cb_def check_cb_def Let_def
      kill_kss_probe_alternatives_def css_populate_dir_probe_alternatives_def)

lemma existing_cgroups_v2_calls:
  assumes "existing_cgroups_v2 env kernel_version w = Some w'"
  shows "\<exists>evs. trace w' = trace w @ evs \<and>
           (\<forall>e \<in> set evs. \<not> v1_backfill_call e \<and> e \<noteq> CleanupProbe ''cgroup_clone_children_read'')"
proof (cases "string_ge kernel_version cgroup_v2_first_kernel_version")
  case False
  with assms have "w' = w" by (simp add: existing_cgroups_v2_def)
  then show ?thesis by simp
next
  case True
  let ?w2 = "emit (StartKretprobe ''onret_cgroup_control'' ''cgroup_control'')
               (emit (StartProbe ''on_cgroup_control'' ''cgroup_control'') w)"
  show ?thesis
  proof (cases "find_cgroup_v2_mountpoint env = []")
    case True
    with \<open>string_ge kernel_version cgroup_v2_first_kernel_version\<close> assms
    have "trace w' = trace w @ [StartProbe ''on_cgroup_control'' ''cgroup_control'',
        StartKretprobe ''onret_cgroup_control'' ''cgroup_control'',
        CleanupKretprobe ''cgroup_control'', CleanupProbe ''cgroup_control'']"
      by (auto simp: existing_cgroups_v2_def Let_def)
    then show ?thesis by simp
  next
    case False
    with \<open>string_ge kernel_version cgroup_v2_first_kernel_version\<close> assms
    obtain wt where wt:
      "trigger_existing_cgroup_probe env (find_cgroup_v2_mountpoint env) ''cgroup.controllers'' ?w2
         = Some wt"
      "w' = emit (CleanupProbe ''cgroup_control'') (emit (CleanupKretprobe ''cgroup_control'')
              (check_cb ''trigger_cgroup_control()'' wt))"
      by (auto simp: existing_cgroups_v2_def Let_def split: bind_splits)
    from trigger_v2_calls[OF wt(1)] have
      t: "trace wt = trace ?w2 @ new_events ?w2 wt"
      and n: "\<forall>e \<in> set (new_events ?w2 wt).
                \<not> v1_backfill_call e \<and> (\<forall>s. e \<noteq> CleanupProbe s)"
      by blast+
    let ?evs = "[StartProbe ''on_cgroup_control'' ''cgroup_control'',
        StartKretprobe ''onret_cgroup_control'' ''cgroup_control''] @ new_events ?w2 wt @
        [CheckCb ''trigger_cgroup_control()'', CleanupKretprobe ''cgroup_control'',
         CleanupProbe ''cgroup_control'']"
    have "trace w' = trace w @ ?evs" by (simp add: wt(2) t check_cb_def)
    moreover have "\<forall>e \<in> set ?evs. \<not> v1_backfill_call e \<and>
        e \<noteq> CleanupProbe ''cgroup_clone_children_read''"
      using n by auto
    ultimately show ?thesis by blast
  qed
qed


lemma existing_cgroups_v1_calls:
  assumes "existing_cgroups_v1 env w = Some w'"
  shows "\<exists>pre. trace w' = pre @ [CleanupProbe ''cgroup_clone_children_read''] \<and>
           (find_cgroup_v1_mountpoint env = [] \<longrightarrow> pre = trace w) \<and>
           (find_cgroup_v1_mountpoint env \<noteq> [] \<longrightarrow>
              (\<exists>w1. trigger_existing_cgroup_probe env (find_cgroup_v1_mountpoint env)
                       ''cgroup.clone_children'' w = Some w1 \<and>
                    pre = trace w1 @ [CheckCb ''trigger_cgroup_clone_children_read()''])) \<and>
           (\<exists>evs. pre = trace w @ evs \<and>
              (\<forall>e \<in> set evs. \<not> v2_call e \<and> e \<noteq> CleanupProbe ''cgroup_clone_children_read''))"
proof (cases "find_cgroup_v1_mountpoint env = []")
  case True
  with assms have "trace w' = trace w @ [CleanupProbe ''cgroup_clone_children_read'']"
    by (auto simp: existing_cgroups_v1_def Let_def)
  with True show ?thesis by simp
next
  case False
  with assms obtain w1 where w1:
    "trigger_existing_cgroup_probe env (find_cgroup_v1_mountpoint env) ''cgroup.clone_children'' w
       = Some w1"
    "w' = emit (CleanupProbe ''cgroup_clone_children_read'')
            (check_cb ''trigger_cgroup_clone_children_read()'' w1)"
    by (auto simp: existing_cgroups_v1_def Let_def split: bind_splits)
  from trigger_v1_calls[OF w1(1)] have
    t: "trace w1 = trace w @ new_events w w1"
    and n: "\<forall>e \<in> set (new_events w w1). \<not> v2_call e \<and> (\<forall>s. e \<noteq> CleanupProbe s)"
    by blast+
  let ?pre = "trace w1 @ [CheckCb ''trigger_cgroup_clone_children_read()'']"
  let ?evs = "new_events w w1 @ [CheckCb ''trigger_cgroup_clone_children_read()'']"
  have "trace w' = ?pre @ [CleanupProbe ''cgroup_clone_children_read'']"
    by (simp add: w1(2) check_cb_def)
  moreover have "?pre = trace w @ ?evs" using t by simp
  moreover have "\<forall>e \<in> set ?evs. \<not> v2_call e \<and> e \<noteq> CleanupProbe ''cgroup_clone_children_read''"
    using n by auto
  ultimately show ?thesis using False w1(1) by blast
qed

lemma CgroupProber_detach_order:
  assumes "CgroupProber env kernel_version = Some w"
  shows "\<exists>pre post.
     trace w = pre @ [CleanupProbe ''cgroup_clone_children_read''] @ post \<and>
     (find_cgroup_v1_mountpoint env = [] \<longrightarrow> pre = trace (start_probes fresh_prober)) \<and>
     (find_cgroup_v1_mountpoint env \<noteq> [] \<longrightarrow>
        (\<exists>w1. trigger_existing_cgroup_probe env (find_cgroup_v1_mountpoint env)
                 ''cgroup.clone_children'' (start_probes fresh_prober) = Some w1 \<and>
              pre = trace w1 @ [CheckCb ''trigger_cgroup_clone_children_read()''])) \<and>
     (\<forall>e \<in> set pre. \<not> v2_call e \<and> e \<noteq> CleanupProbe ''cgroup_clone_children_read'') \<and>
     (\<forall>e \<in> set post. \<not> v1_backfill_call e \<and> e \<noteq> CleanupProbe ''cgroup_clone_children_read'')"
proof -
  let ?s = "start_probes fresh_prober"
  from assms obtain w1 w2 where
    w1: "existing_cgroups_v1 env ?s = Some w1"
    and w2: "existing_cgroups_v2 env kernel_version w1 = Some w2"
    and w: "w = check_cb ''cgroup prober cleanup()'' (periodic_cb w2)"
    by (auto simp: CgroupProber_def split: bind_splits)
  from existing_cgroups_v1_calls[OF w1] obtain pre evs where
    pre: "trace w1 = pre @ [CleanupProbe ''cgroup_clone_children_read'']"
      "find_cgroup_v1_mountpoint env = [] \<longrightarrow> pre = trace ?s"
      "find_cgroup_v1_mountpoint env \<noteq> [] \<longrightarrow>
        (\<exists>w1. trigger_existing_cgroup_probe env (find_cgroup_v1_mountpoint env)
                 ''cgroup.clone_children'' ?s = Some w1 \<and>
              pre = trace w1 @ [CheckCb ''trigger_cgroup_clone_children_read()''])"
      "pre = trace ?s @ evs"
      "\<forall>e \<in> set evs. \<not> v2_call e \<and> e \<noteq> CleanupProbe ''cgroup_clone_children_read''"
    by blast
  from existing_cgroups_v2_calls[OF w2] obtain evs2 where
    evs2: "trace w2 = trace w1 @ evs2"
      "\<forall>e \<in> set evs2. \<not> v1_backfill_call e \<and> e \<noteq> CleanupProbe ''cgroup_clone_children_read''"
    by blast
  let ?post = "evs2 @ [PeriodicCb, CheckCb ''cgroup prober cleanup()'']"
  have "trace w = pre @ [CleanupProbe ''cgroup_clone_children_read''] @ ?post"
    by (simp add: w check_cb_def periodic_cb_def evs2(1) pre(1))
  moreover have "\<forall>e \<in> set pre. \<not> v2_call e \<and> e \<noteq> CleanupProbe ''cgroup_clone_children_read''"
    using pre(5) by (auto simp: pre(4) trace_start_probes fresh_prober_def)
  moreover have "\<forall>e \<in> set ?post. \<not> v1_backfill_call e \<and>
      e \<noteq> CleanupProbe ''cgroup_clone_children_read''"
    using evs2(2) by auto
  ultimately show ?thesis using pre(2,3) by blast
qed

lemma trigger_returns:
  assumes "depth_le (dir_children env) n root"
  shows "\<exists>w'. trigger_existing_cgroup_probe env root f w = Some w'"
  using trigger_total[OF depth_le_walk[OF assms], of f w] by blast

lemma existing_cgroups_v1_returns:
  assumes "find_cgroup_v1_mountpoint env \<noteq> [] \<longrightarrow>
             depth_le (dir_children env) n (find_cgroup_v1_mountpoint env)"
  shows "\<exists>w'. existing_cgroups_v1 env w = Some w'"
proof (cases "find_cgroup_v1_mountpoint env = []")
  case True
  then show ?thesis by (simp add: existing_cgroups_v1_def)
next
  case False
  with assms have "depth_le (dir_children env) n (find_cgroup_v1_mountpoint env)" by simp
  from trigger_returns[OF this, of "''cgroup.clone_children''" w] obtain w' where
    "trigger_existing_cgroup_probe env (find_cgroup_v1_mountpoint env)
       ''cgroup.clone_children'' w = Some w'" by blast
  with False show ?thesis by (simp add: existing_cgroups_v1_def)
qed

lemma existing_cgroups_v2_returns:
  assumes "find_cgroup_v2_mountpoint env \<noteq> [] \<longrightarrow>
             depth_le (dir_children env) n (find_cgroup_v2_mountpoint env)"
  shows "\<exists>w'. existing_cgroups_v2 env kernel_version w = Some w'"
proof (cases "string_ge kernel_version cgroup_v2_first_kernel_version \<and>
              find_cgroup_v2_mountpoint env \<noteq> []")
  case False
  then show ?thesis by (auto simp: existing_cgroups_v2_def Let_def)
next
  case True
  let ?w2 = "emit (StartKretprobe ''onret_cgroup_control'' ''cgroup_control'')
               (emit (StartProbe ''on_cgroup_control'' ''cgroup_control'') w)"
  from True assms have "depth_le (dir_children env) n (find_cgroup_v2_mountpoint env)" by simp
  from trigger_returns[OF this, of "''cgroup.controllers''" ?w2] obtain w' where
    "trigger_existing_cgroup_probe env (find_cgroup_v2_mountpoint env)
       ''cgroup.controllers'' ?w2 = Some w'" by blast
  with True show ?thesis by (simp add: existing_cgroups_v2_def Let_def)
qed

lemma CgroupProber_returns:
  assumes "find_cgroup_v1_mountpoint env \<noteq> [] \<longrightarrow>
             depth_le (dir_children env) n1 (find_cgroup_v1_mountpoint env)"
    and "find_cgroup_v2_mountpoint env \<noteq> [] \<longrightarrow>
             depth_le (dir_children env) n2 (find_cgroup_v2_mountpoint env)"
  shows "\<exists>w. CgroupProber env kernel_version = Some w"
proof -
  from existing_cgroups_v1_returns[OF assms(1), of "start_probes fresh_prober"] obtain w1 where
    w1: "existing_cgroups_v1 env (start_probes fresh_prober) = Some w1" by blast
  from existing_cgroups_v2_returns[OF assms(2), of kernel_version w1] obtain w2 where
    w2: "existing_cgroups_v2 env kernel_version w1 = Some w2" by blast
  from w1 w2 show ?thesis by (simp add: CgroupProber_def)
qed

lemma host_hybrid_starts:
  "CgroupProber host_hybrid ''5.4'' = Some host_hybrid_startup"
  by (simp add: CgroupProber_def existing_cgroups_v1_def existing_cgroups_v2_def
      start_probes_def fresh_prober_def find_cgroup_v1_mountpoint_def
      find_cgroup_v2_mountpoint_def cgroup_v1_mountpoints_def cgroup_v2_mountpoints_def
      is_cgroup_v1_mountpoint_def is_cgroup_v2_mountpoint_def file_exists_def S_ISREG_def
      S_IFMT_def S_IFREG_def string_ge_def cgroup_v2_first_kernel_version_def
      trigger_existing_cgroup_probe_def while_dirs.simps loop_body_def host_hybrid_def
      host_hybrid_startup_def periodic_cb_def check_cb_def emit_def closedir_def Let_def
      kill_kss_probe_alternatives_def css_populate_dir_probe_alternatives_def)

lemma host_hybrid_mountpoints:
  "find_cgroup_v1_mountpoint host_hybrid = ''/sys/fs/cgroup/memory''"
  "find_cgroup_v2_mountpoint host_hybrid = ''/sys/fs/cgroup''"
  by (simp_all add: find_cgroup_v1_mountpoint_def find_cgroup_v2_mountpoint_def
      cgroup_v1_mountpoints_def cgroup_v2_mountpoints_def
      is_cgroup_v1_mountpoint_def is_cgroup_v2_mountpoint_def file_exists_def S_ISREG_def
      S_IFMT_def S_IFREG_def host_hybrid_def)

lemma host_hybrid_trees:
  "depth_le (dir_children host_hybrid) 1 ''/sys/fs/cgroup/memory''"
  "depth_le (dir_children host_hybrid) 2 ''/sys/fs/cgroup''"
  by (simp_all add: dir_children_def host_hybrid_def subdirs_def numeral_2_eq_2)


lemma host_marker_missing_starts:
  "CgroupProber host_marker_missing ''3.10'' = Some host_marker_missing_startup"
  by (simp add: CgroupProber_def existing_cgroups_v1_def existing_cgroups_v2_def
      start_probes_def fresh_prober_def find_cgroup_v1_mountpoint_def
      find_cgroup_v2_mountpoint_def cgroup_v1_mountpoints_def cgroup_v2_mountpoints_def
      is_cgroup_v1_mountpoint_def is_cgroup_v2_mountpoint_def file_exists_def S_ISREG_def
      S_IFMT_def S_IFREG_def string_ge_def cgroup_v2_first_kernel_version_def
      trigger_existing_cgroup_probe_def while_dirs.simps loop_body_def host_marker_missing_def
      host_marker_missing_startup_def periodic_cb_def check_cb_def emit_def closedir_def Let_def
      kill_kss_probe_alternatives_def css_populate_dir_probe_alternatives_def)

text \<open>
  C7. On a host whose v1 and v2 hierarchies are finite directory trees the constructor
  returns, and its calls are: a first part, then
  \<^verbatim>\<open>cleanup_probe("cgroup_clone_children_read")\<close>, then a last part. The first part is the
  startup calls alone when no v1 mountpoint was found, and otherwise everything up to the
  end of the v1 walk and its checkpoint; it holds no call of the cgroup v2 phase. The last
  part holds no call of the v1 backfill. The detach itself occurs in neither part, so it
  happens exactly once, found or not.
\<close>

theorem v1_trigger_detached_between_phases:
  assumes "find_cgroup_v1_mountpoint env \<noteq> [] \<longrightarrow>
             depth_le (dir_children env) n1 (find_cgroup_v1_mountpoint env)"
    and "find_cgroup_v2_mountpoint env \<noteq> [] \<longrightarrow>
             depth_le (dir_children env) n2 (find_cgroup_v2_mountpoint env)"
  shows "\<exists>w pre post.
     CgroupProber env kernel_version = Some w \<and>
     trace w = pre @ [CleanupProbe ''cgroup_clone_children_read''] @ post \<and>
     (find_cgroup_v1_mountpoint env = [] \<longrightarrow> pre = trace (start_probes fresh_prober)) \<and>
     (find_cgroup_v1_mountpoint env \<noteq> [] \<longrightarrow>
        (\<exists>w1. trigger_existing_cgroup_probe env (find_cgroup_v1_mountpoint env)
                 ''cgroup.clone_children'' (start_probes fresh_prober) = Some w1 \<and>
              pre = trace w1 @ [CheckCb ''trigger_cgroup_clone_children_read()''])) \<and>
     (\<forall>e \<in> set pre. \<not> v2_call e \<and> e \<noteq> CleanupProbe ''cgroup_clone_children_read'') \<and>
     (\<forall>e \<in> set post. \<not> v1_backfill_call e \<and> e \<noteq> CleanupProbe ''cgroup_clone_children_read'')"
proof -
  from CgroupProber_returns[OF assms, of kernel_version] obtain w where
    w: "CgroupProber env kernel_version = Some w" by blast
  from CgroupProber_detach_order[OF w] w show ?thesis by blast
qed

theorem v1_trigger_detached_between_phases_witness:
  "find_cgroup_v1_mountpoint host_hybrid = ''/sys/fs/cgroup/memory'' \<and>
   find_cgroup_v2_mountpoint host_hybrid = ''/sys/fs/cgroup'' \<and>
   depth_le (dir_children host_hybrid) 1 ''/sys/fs/cgroup/memory'' \<and>
   depth_le (dir_children host_hybrid) 2 ''/sys/fs/cgroup'' \<and>
   CgroupProber host_hybrid ''5.4'' = Some host_hybrid_startup \<and>
   (\<exists>pre post.
      trace host_hybrid_startup = pre @ [CleanupProbe ''cgroup_clone_children_read''] @ post \<and>
      Getline ''/sys/fs/cgroup/memory/docker/cgroup.clone_children'' \<in> set pre \<and>
      CheckCb ''trigger_cgroup_clone_children_read()'' \<in> set pre \<and>
      StartProbe ''on_cgroup_control'' ''cgroup_control'' \<in> set post) \<and>
   find_cgroup_v1_mountpoint host_marker_missing = [] \<and>
   find_cgroup_v2_mountpoint host_marker_missing = [] \<and>
   CgroupProber host_marker_missing ''3.10'' = Some host_marker_missing_startup \<and>
   (\<exists>pre post.
      trace host_marker_missing_startup =
        pre @ [CleanupProbe ''cgroup_clone_children_read''] @ post \<and>
      pre = trace (start_probes fresh_prober))"
proof -
  have h1: "find_cgroup_v1_mountpoint host_hybrid \<noteq> [] \<longrightarrow>
      depth_le (dir_children host_hybrid) 1 (find_cgroup_v1_mountpoint host_hybrid)"
    and h2: "find_cgroup_v2_mountpoint host_hybrid \<noteq> [] \<longrightarrow>
      depth_le (dir_children host_hybrid) 2 (find_cgroup_v2_mountpoint host_hybrid)"
    using host_hybrid_trees by (simp_all add: host_hybrid_mountpoints del: depth_le.simps)
  from v1_trigger_detached_between_phases[OF h1 h2, of "''5.4''"] host_hybrid_starts
  obtain pre post where
    a: "trace host_hybrid_startup = pre @ [CleanupProbe ''cgroup_clone_children_read''] @ post"
      "\<forall>e \<in> set pre. \<not> v2_call e \<and> e \<noteq> CleanupProbe ''cgroup_clone_children_read''"
      "\<forall>e \<in> set post. \<not> v1_backfill_call e \<and> e \<noteq> CleanupProbe ''cgroup_clone_children_read''"
    by auto
  have g: "Getline ''/sys/fs/cgroup/memory/docker/cgroup.clone_children''
             \<in> set (trace host_hybrid_startup)"
    and c: "CheckCb ''trigger_cgroup_clone_children_read()'' \<in> set (trace host_hybrid_startup)"
    and s: "StartProbe ''on_cgroup_control'' ''cgroup_control'' \<in> set (trace host_hybrid_startup)"
    by (simp_all add: host_hybrid_startup_def)
  have vg: "v1_backfill_call (Getline ''/sys/fs/cgroup/memory/docker/cgroup.clone_children'')"
    and vc: "v1_backfill_call (CheckCb ''trigger_cgroup_clone_children_read()'')"
    and vs: "v2_call (StartProbe ''on_cgroup_control'' ''cgroup_control'')"
    by (simp_all add: ends_with_def)
  from g a(1,3) vg have 1: "Getline ''/sys/fs/cgroup/memory/docker/cgroup.clone_children'' \<in> set pre"
    by auto
  from c a(1,3) vc have 2: "CheckCb ''trigger_cgroup_clone_children_read()'' \<in> set pre"
    by auto
  from s a(1,2) vs have 3: "StartProbe ''on_cgroup_control'' ''cgroup_control'' \<in> set post"
    by auto
  from a(1) 1 2 3 have A: "\<exists>pre post.
      trace host_hybrid_startup = pre @ [CleanupProbe ''cgroup_clone_children_read''] @ post \<and>
      Getline ''/sys/fs/cgroup/memory/docker/cgroup.clone_children'' \<in> set pre \<and>
      CheckCb ''trigger_cgroup_clone_children_read()'' \<in> set pre \<and>
      StartProbe ''on_cgroup_control'' ''cgroup_control'' \<in> set post"
    by blast
  have f1: "find_cgroup_v1_mountpoint host_marker_missing = []"
    and f2: "find_cgroup_v2_mountpoint host_marker_missing = []"
    by (simp_all add: find_cgroup_v1_mountpoint_def find_cgroup_v2_mountpoint_def
        cgroup_v1_mountpoints_def cgroup_v2_mountpoints_def is_cgroup_v1_mountpoint_def
        is_cgroup_v2_mountpoint_def file_exists_def host_marker_missing_def)
  have k1: "find_cgroup_v1_mountpoint host_marker_missing \<noteq> [] \<longrightarrow>
      depth_le (dir_children host_marker_missing) 0 (find_cgroup_v1_mountpoint host_marker_missing)"
    and k2: "find_cgroup_v2_mountpoint host_marker_missing \<noteq> [] \<longrightarrow>
      depth_le (dir_children host_marker_missing) 0 (find_cgroup_v2_mountpoint host_marker_missing)"
    by (simp_all add: f1 f2)
  from v1_trigger_detached_between_phases[OF k1 k2, of "''3.10''"] host_marker_missing_starts f1
  have B: "\<exists>pre post.
      trace host_marker_missing_startup =
        pre @ [CleanupProbe ''cgroup_clone_children_read''] @ post \<and>
      pre = trace (start_probes fresh_prober)"
    by auto
  from A B f1 f2 host_hybrid_mountpoints host_hybrid_trees host_hybrid_starts
    host_marker_missing_starts
  show ?thesis by blast
qed


end
